theory Spec2Isabelle
  imports Complex_Main "HOL-Library.Sublist" "HOL-Library.Log_Nat"
begin

section \<open>Conventions of the embedding\<close>

text \<open>
  The program is TypeScript. A JavaScript \<open>number\<close> is modelled as an exact rational
  (\<^typ>\<open>rat\<close>). The rounding of IEEE doubles is modelled in one place, where it
  changes what the program does: the product of a duration with 0.7 that the relaxed
  scheduling floors (see \<open>fmul\<close> below). Elsewhere the program floors products of two
  constants, whose floors are those of the exact products (\<open>constant_products\<close> below),
  and, in \<open>getImprovedEstimation\<close> with a learning record, products with learned
  fractions, which are taken exact. A \<open>Date\<close> is its
  millisecond count since the epoch, also a rational; the local time zone is taken to be
  UTC without daylight saving, and the truncation of a \<open>Date\<close> to whole milliseconds
  is not modelled. \<open>Math.floor\<close> is \<^const>\<open>floor\<close> read back as a number.

  The four phases are named in Japanese in the learning engine and the scheduler
  (junbi, sekkei, jissou, kaizen); the theory uses the English names of the
  \<open>CalendarEvent\<close> type of \<open>App.tsx\<close>: incubation, design, implementation,
  improvement.
\<close>

type_synonym num = rat

definition Math_floor :: "num \<Rightarrow> num" where
  "Math_floor x = of_int \<lfloor>x\<rfloor>"

text \<open>
  The double nearest to a rational, ties to even (\<open>binary64\<close>): the rational is scaled
  by the unit in the last place of its binade (53 significant bits, subnormal below
  \<open>2 ^ -1022\<close>) and rounded to an integer. Overflow to \<open>Infinity\<close> is not modelled.
  \<open>fmul\<close> is the product of two doubles as the machine gives it, and \<open>seven_tenths\<close>
  is the literal \<open>0.7\<close>, a double slightly below seven tenths: \<open>90 * 0.7\<close> is
  62.99999999999999 and its floor is 62.
\<close>

definition round_half_even :: "rat \<Rightarrow> int" where
  "round_half_even q =
     (let f = \<lfloor>q\<rfloor>; r = q - of_int f in
      if r < 1 / 2 then f else if 1 / 2 < r then f + 1 else if even f then f else f + 1)"

definition pow2 :: "int \<Rightarrow> rat" where
  "pow2 k = (if 0 \<le> k then 2 ^ nat k else 1 / 2 ^ nat (- k))"

text \<open>The binade of a rational other than 0: the exponent \<open>e\<close> with \<open>2 ^ e \<le> |q| < 2 ^ (e + 1)\<close>.\<close>

definition binade :: "rat \<Rightarrow> int" where
  "binade q =
     (let (n, d) = quotient_of \<bar>q\<bar>;
          e = bitlen n - bitlen d
      in if pow2 e \<le> \<bar>q\<bar> then e else e - 1)"

definition binary64 :: "rat \<Rightarrow> rat" where
  "binary64 q =
     (if q = 0 then 0
      else (let ulp = pow2 (max (binade q) (- 1022) - 52)
            in of_int (round_half_even (q / ulp)) * ulp))"

definition fmul :: "num \<Rightarrow> num \<Rightarrow> num" where
  "fmul x y = binary64 (x * y)"

definition seven_tenths :: num where
  "seven_tenths = binary64 (7 / 10)"

text \<open>The console, where a claim speaks of it: the level of each entry and its text.\<close>

datatype console_level = ConsoleLog | ConsoleWarn | ConsoleError

type_synonym console = "(console_level \<times> string) list"

text \<open>
  An item of \<open>localStorage\<close> that the program reads as a list. The key is absent
  (\<open>getItem\<close> returns \<open>null\<close>; an empty text is treated alike), or it holds the JSON
  text of a list, or reading it throws: \<open>getItem\<close> itself throws, \<open>JSON.parse\<close> rejects the text, or the value
  parsed is no array, so that \<open>push\<close> or \<open>filter\<close> is not a function of it.
\<close>

datatype 'a stored = Absent | Present "'a list" | Unreadable

section \<open>Data model (\<open>App.tsx\<close>)\<close>

datatype phase = Incubation | Design | Implementation | Improvement

datatype status = Todo | Doing | Done | Wiki

record TaskEstimation =
  incubation :: num
  design :: num
  implementation :: num
  improvement :: num
  total :: num
  confidence :: num

text \<open>The \<open>actualTime\<close> object: observed minutes per phase.\<close>

record ActualTime =
  act_incubation :: num
  act_design :: num
  act_implementation :: num
  act_improvement :: num

text \<open>
  A scheduled block. The \<open>id\<close> string, built from the task id, the phase and a clock
  reading, is not modelled: nothing in the program reads it.
\<close>

record CalendarEvent =
  ce_taskId :: string
  ce_phase :: phase
  startTime :: num
  endTime :: num
  googleEventId :: "string option"

record Task =
  task_id :: string
  title :: string
  task_status :: status
  project :: "string option"
  task_keywords :: "string list"
  priority :: nat
  dueDate :: "num option"
  estimation :: "TaskEstimation option"
  actualTime :: "ActualTime option"
  calendarEvents :: "CalendarEvent list option"
  scheduledStartDate :: "num option"
  scheduledEndDate :: "num option"
  lastRescheduled :: "num option"
  reschedulingHistory :: "string list option"

text \<open>
  \<open>reschedulingHistory\<close> holds the events that touched the task; the model keeps their
  identifiers. A \<open>Task\<close> is a task in memory whose dates are \<open>Date\<close> objects, as the type
  says and as the scheduler creates them; a task parsed from storage is a \<open>StoredTask\<close>
  (see the rescheduler).
\<close>

record PhaseDistribution =
  pd_incubation :: num
  pd_design :: num
  pd_implementation :: num
  pd_improvement :: num

record LearningData =
  ld_userId :: string
  ld_taskType :: string
  estimationAccuracy :: num
  underestimationRate :: num
  overestimationRate :: num
  phaseDistribution :: PhaseDistribution
  lastUpdated :: num

text \<open>
  In the source \<open>underestimationRate\<close>, \<open>overestimationRate\<close> and
  \<open>phaseDistribution\<close> sit one level down, in \<open>commonPatterns\<close>.
\<close>

record TaskHistory =
  th_taskId :: string
  originalEstimation :: TaskEstimation
  th_actualTime :: ActualTime
  adjustmentReason :: string
  th_timestamp :: num

section \<open>Learning engine (\<open>services/learningEngine.ts\<close>)\<close>

text \<open>
  The engine is a singleton holding \<open>learningData\<close>, a map from task type to record, and
  it persists raw observations under the storage key \<open>familytasks_task_history\<close>.
  \<open>setItem_throws\<close> says that \<open>localStorage.setItem\<close> throws (the quota is exceeded,
  or storage is disabled). \<open>saveLearningData\<close> writes the values of the map to storage
  after every update, inside a \<open>try\<close>; that copy is not modelled.
\<close>

record LearningEngine =
  learningData :: "string \<rightharpoonup> LearningData"
  stored_task_history :: "TaskHistory stored"
  setItem_throws :: bool

definition getDefaultEstimation :: TaskEstimation where
  "getDefaultEstimation =
     (let baseTime = 60 in
      \<lparr> incubation = Math_floor (baseTime * 0.2),
        design = Math_floor (baseTime * 0.3),
        implementation = Math_floor (baseTime * 0.4),
        improvement = Math_floor (baseTime * 0.1),
        total = baseTime,
        confidence = 0.7 \<rparr>)"

text \<open>The title vocabulary of \<open>classifyTask\<close>, as UTF-8 bytes.\<close>

definition kw_kaimono :: string where
  "kw_kaimono = [CHR 0xE8, CHR 0xB2, CHR 0xB7, CHR 0xE3, CHR 0x81, CHR 0x84, CHR 0xE7, CHR 0x89, CHR 0xA9]"

definition kw_kounyuu :: string where
  "kw_kounyuu = [CHR 0xE8, CHR 0xB3, CHR 0xBC, CHR 0xE5, CHR 0x85, CHR 0xA5]"

definition kw_souji :: string where
  "kw_souji = [CHR 0xE6, CHR 0x8E, CHR 0x83, CHR 0xE9, CHR 0x99, CHR 0xA4]"

definition kw_katazuke :: string where
  "kw_katazuke = [CHR 0xE7, CHR 0x89, CHR 0x87, CHR 0xE4, CHR 0xBB, CHR 0x98, CHR 0xE3, CHR 0x81, CHR 0x91]"

definition kw_kaigi :: string where
  "kw_kaigi = [CHR 0xE4, CHR 0xBC, CHR 0x9A, CHR 0xE8, CHR 0xAD, CHR 0xB0]"

definition kw_meeting :: string where
  "kw_meeting = [CHR 0xE3, CHR 0x83, CHR 0x9F, CHR 0xE3, CHR 0x83, CHR 0xBC, CHR 0xE3, CHR 0x83, CHR 0x86,
                 CHR 0xE3, CHR 0x82, CHR 0xA3, CHR 0xE3, CHR 0x83, CHR 0xB3, CHR 0xE3, CHR 0x82, CHR 0xB0]"

definition kw_benkyou :: string where
  "kw_benkyou = [CHR 0xE5, CHR 0x8B, CHR 0x89, CHR 0xE5, CHR 0xBC, CHR 0xB7]"

definition kw_gakushuu :: string where
  "kw_gakushuu = [CHR 0xE5, CHR 0xAD, CHR 0xA6, CHR 0xE7, CHR 0xBF, CHR 0x92]"

definition cat_kaji :: string where
  "cat_kaji = [CHR 0xE5, CHR 0xAE, CHR 0xB6, CHR 0xE4, CHR 0xBA, CHR 0x8B]"

definition cat_shigoto :: string where
  "cat_shigoto = [CHR 0xE4, CHR 0xBB, CHR 0x95, CHR 0xE4, CHR 0xBA, CHR 0x8B]"

definition cat_sonota :: string where
  "cat_sonota = [CHR 0xE3, CHR 0x81, CHR 0x9D, CHR 0xE3, CHR 0x81, CHR 0xAE, CHR 0xE4, CHR 0xBB, CHR 0x96]"

text \<open>\<open>String.prototype.includes\<close>: the argument occurs as a contiguous run.\<close>

fun str_includes :: "string \<Rightarrow> string \<Rightarrow> bool" where
  "str_includes [] w = (w = [])"
| "str_includes (c # cs) w = (prefix w (c # cs) \<or> str_includes cs w)"

text \<open>
  \<open>classifyTask\<close>. An empty project string is falsy in JavaScript and falls through to
  the keywords. The source lower-cases the title before searching; the searched words
  have no cased letter, so the search is made on the title as it is.
\<close>

definition classifyTask :: "Task \<Rightarrow> string" where
  "classifyTask task =
     (case project task of
        Some p \<Rightarrow>
          if p \<noteq> [] then p
          else (case task_keywords task of
                  k # _ \<Rightarrow> k
                | [] \<Rightarrow>
                    if str_includes (title task) kw_kaimono \<or> str_includes (title task) kw_kounyuu then kw_kaimono
                    else if str_includes (title task) kw_souji \<or> str_includes (title task) kw_katazuke then cat_kaji
                    else if str_includes (title task) kw_kaigi \<or> str_includes (title task) kw_meeting then cat_shigoto
                    else if str_includes (title task) kw_benkyou \<or> str_includes (title task) kw_gakushuu then kw_gakushuu
                    else cat_sonota)
      | None \<Rightarrow>
          (case task_keywords task of
             k # _ \<Rightarrow> k
           | [] \<Rightarrow>
               if str_includes (title task) kw_kaimono \<or> str_includes (title task) kw_kounyuu then kw_kaimono
               else if str_includes (title task) kw_souji \<or> str_includes (title task) kw_katazuke then cat_kaji
               else if str_includes (title task) kw_kaigi \<or> str_includes (title task) kw_meeting then cat_shigoto
               else if str_includes (title task) kw_benkyou \<or> str_includes (title task) kw_gakushuu then kw_gakushuu
               else cat_sonota))"

text \<open>\<open>Object.values(actualTime).reduce((sum, time) => sum + time, 0)\<close>.\<close>

definition actual_total :: "ActualTime \<Rightarrow> num" where
  "actual_total a = 0 + act_incubation a + act_design a + act_implementation a + act_improvement a"

definition calculateEstimationAccuracy :: "TaskEstimation \<Rightarrow> ActualTime \<Rightarrow> num" where
  "calculateEstimationAccuracy est a =
     (let estimatedTotal = total est;
          actualTotal = actual_total a
      in if estimatedTotal = 0 \<and> actualTotal = 0 then 1
         else if estimatedTotal = 0 \<or> actualTotal = 0 then 0
         else (let relativeError = \<bar>estimatedTotal - actualTotal\<bar> / max estimatedTotal actualTotal
               in max 0 (1 - relativeError)))"

definition createInitialLearningData :: "string \<Rightarrow> string \<Rightarrow> num \<Rightarrow> LearningData" where
  "createInitialLearningData userId taskType now =
     \<lparr> ld_userId = userId,
       ld_taskType = taskType,
       estimationAccuracy = 0.7,
       underestimationRate = 0.5,
       overestimationRate = 0.5,
       phaseDistribution =
         \<lparr> pd_incubation = 0.2, pd_design = 0.3, pd_implementation = 0.4, pd_improvement = 0.1 \<rparr>,
       lastUpdated = now \<rparr>"

text \<open>
  \<open>updateLearningData\<close>, on the map of records. \<open>now\<close> is the clock reading of
  \<open>new Date()\<close>. \<open>totalActual || 1\<close> replaces a zero total by 1.
\<close>

definition updateLearningData ::
  "num \<Rightarrow> Task \<Rightarrow> TaskHistory \<Rightarrow> (string \<rightharpoonup> LearningData) \<Rightarrow> (string \<rightharpoonup> LearningData)" where
  "updateLearningData now task history m =
     (let taskType = classifyTask task;
          userId = ''default'';
          ld = (case m taskType of
                  None \<Rightarrow> createInitialLearningData userId taskType now
                | Some d \<Rightarrow> d);
          accuracy = calculateEstimationAccuracy (originalEstimation history) (th_actualTime history);
          alpha = 0.1;
          ld1 = ld\<lparr> estimationAccuracy := alpha * accuracy + (1 - alpha) * estimationAccuracy ld \<rparr>;
          totalEstimated = total (originalEstimation history);
          totalActual = actual_total (th_actualTime history);
          ld2 = (if totalActual > totalEstimated then
                   ld1\<lparr> underestimationRate := alpha * 1 + (1 - alpha) * underestimationRate ld1,
                        overestimationRate := (1 - alpha) * overestimationRate ld1 \<rparr>
                 else if totalActual < totalEstimated then
                   ld1\<lparr> overestimationRate := alpha * 1 + (1 - alpha) * overestimationRate ld1,
                        underestimationRate := (1 - alpha) * underestimationRate ld1 \<rparr>
                 else ld1);
          actualTotal = (if totalActual = 0 then 1 else totalActual);
          old = phaseDistribution ld2;
          ld3 = ld2\<lparr> phaseDistribution :=
                  \<lparr> pd_incubation =
                      alpha * (act_incubation (th_actualTime history) / actualTotal) + (1 - alpha) * pd_incubation old,
                    pd_design =
                      alpha * (act_design (th_actualTime history) / actualTotal) + (1 - alpha) * pd_design old,
                    pd_implementation =
                      alpha * (act_implementation (th_actualTime history) / actualTotal)
                        + (1 - alpha) * pd_implementation old,
                    pd_improvement =
                      alpha * (act_improvement (th_actualTime history) / actualTotal)
                        + (1 - alpha) * pd_improvement old \<rparr> \<rparr>
      in m(taskType \<mapsto> ld3\<lparr> lastUpdated := now \<rparr>))"

text \<open>
  \<open>saveTaskHistory\<close>: read the stored list (absent: empty), push, keep the last 1000,
  write back. The whole body is in a \<open>try\<close>: when the read or the write throws, the
  \<open>catch\<close> logs the error and storage is left as it was.
\<close>

definition saveTaskHistory :: "TaskHistory \<Rightarrow> LearningEngine \<Rightarrow> LearningEngine" where
  "saveTaskHistory history eng =
     (case stored_task_history eng of
        Unreadable \<Rightarrow> eng
      | stored \<Rightarrow>
          (let histories = (case stored of Present hs \<Rightarrow> hs | _ \<Rightarrow> []) @ [history];
               histories' = (if length histories > 1000
                             then drop (length histories - 1000) histories
                             else histories)
           in if setItem_throws eng then eng
              else eng\<lparr> stored_task_history := Present histories' \<rparr>))"

text \<open>
  \<open>recordActualTime\<close> returns the engine and the task after the call: the source mutates
  both. The third argument of the source defaults to \<open>'user_manual'\<close>.
\<close>

definition recordActualTime ::
  "num \<Rightarrow> Task \<Rightarrow> ActualTime \<Rightarrow> string \<Rightarrow> LearningEngine \<Rightarrow> LearningEngine \<times> Task" where
  "recordActualTime now task a reason eng =
     (let taskHistory =
            \<lparr> th_taskId = task_id task,
              originalEstimation =
                (case estimation task of Some e \<Rightarrow> e | None \<Rightarrow> getDefaultEstimation),
              th_actualTime = a,
              adjustmentReason = reason,
              th_timestamp = now \<rparr>;
          eng1 = saveTaskHistory taskHistory eng;
          eng2 = eng1\<lparr> learningData := updateLearningData now task taskHistory (learningData eng1) \<rparr>
      in (eng2, task\<lparr> actualTime := Some a \<rparr>))"

text \<open>
  \<open>redistributePhases\<close>. The ratio divides by \<open>baseEstimation.total\<close>, which is 90, 42
  or 60 at both call sites.
\<close>

definition redistributePhases :: "TaskEstimation \<Rightarrow> num \<Rightarrow> TaskEstimation" where
  "redistributePhases baseEstimation newTotal =
     (let ratio = newTotal / total baseEstimation in
      \<lparr> incubation = Math_floor (incubation baseEstimation * ratio),
        design = Math_floor (design baseEstimation * ratio),
        implementation = Math_floor (implementation baseEstimation * ratio),
        improvement = Math_floor (improvement baseEstimation * ratio),
        total = newTotal,
        confidence = confidence baseEstimation \<rparr>)"

text \<open>
  \<open>getImprovedEstimation\<close>. The source overwrites \<open>baseEstimation.total\<close> with the
  priority-scaled total before it calls \<open>redistributePhases\<close>, so \<open>baseEstimation\<close>
  below is the object after that assignment.
\<close>

definition getImprovedEstimation :: "(string \<rightharpoonup> LearningData) \<Rightarrow> Task \<Rightarrow> TaskEstimation" where
  "getImprovedEstimation m task =
     (let taskType = classifyTask task;
          learned = m taskType;
          priorityMultiplier = (if priority task = 3 then 1.5 else if priority task = 1 then 0.7 else 1.0);
          baseEstimation =
            getDefaultEstimation\<lparr> total := Math_floor (total getDefaultEstimation * priorityMultiplier) \<rparr>
      in case learned of
           None \<Rightarrow> redistributePhases baseEstimation (total baseEstimation)
         | Some ld \<Rightarrow>
             (let adjustedTotal0 = total baseEstimation;
                  adjustedTotal1 =
                    (if underestimationRate ld > 0.6 then adjustedTotal0 * 1.2
                     else if overestimationRate ld > 0.6 then adjustedTotal0 * 0.9
                     else adjustedTotal0);
                  adjustedTotal = Math_floor adjustedTotal1;
                  improved0 = (redistributePhases baseEstimation adjustedTotal)
                                \<lparr> confidence := estimationAccuracy ld \<rparr>;
                  patterns = phaseDistribution ld;
                  improved1 = improved0
                    \<lparr> incubation := Math_floor (adjustedTotal * pd_incubation patterns),
                      design := Math_floor (adjustedTotal * pd_design patterns),
                      implementation := Math_floor (adjustedTotal * pd_implementation patterns),
                      improvement := Math_floor (adjustedTotal * pd_improvement patterns) \<rparr>;
                  phaseSum = incubation improved1 + design improved1
                             + implementation improved1 + improvement improved1
              in if phaseSum \<noteq> adjustedTotal
                 then improved1\<lparr> implementation := implementation improved1 + (adjustedTotal - phaseSum) \<rparr>
                 else improved1))"

text \<open>The sum the invariant of an estimation speaks about.\<close>

definition phase_sum :: "TaskEstimation \<Rightarrow> num" where
  "phase_sum e = incubation e + design e + implementation e + improvement e"

definition distribution_sum :: "PhaseDistribution \<Rightarrow> num" where
  "distribution_sum d = pd_incubation d + pd_design d + pd_implementation d + pd_improvement d"

section \<open>Scheduler (\<open>services/scheduler.ts\<close>)\<close>

record TimeSlot =
  slot_start :: num
  slot_end :: num
  duration :: num

text \<open>
  One weekday of \<open>WorkingHours\<close>. The source keeps the times of day as strings
  \<open>'HH:MM'\<close> and reads them with \<open>split(':').map(Number)\<close>; the model keeps the pair
  (hour, minute) that reading gives.
\<close>

record DayHours =
  day_start :: "num \<times> num"
  day_end :: "num \<times> num"
  enabled :: bool

record WorkingHours =
  monday :: DayHours
  tuesday :: DayHours
  wednesday :: DayHours
  thursday :: DayHours
  friday :: DayHours
  saturday :: DayHours
  sunday :: DayHours

datatype weekday = Sunday | Monday | Tuesday | Wednesday | Thursday | Friday | Saturday

definition ms_per_minute :: num where
  "ms_per_minute = 60 * 1000"

definition ms_per_day :: num where
  "ms_per_day = 24 * 60 * 60 * 1000"

text \<open>Midnight of the calendar day of a date, and \<open>Date.getDay\<close> (the epoch was a Thursday).\<close>

definition midnight :: "num \<Rightarrow> num" where
  "midnight d = of_int \<lfloor>d / ms_per_day\<rfloor> * ms_per_day"

definition getDay :: "num \<Rightarrow> int" where
  "getDay d = (\<lfloor>d / ms_per_day\<rfloor> + 4) mod 7"

definition getDayOfWeek :: "num \<Rightarrow> weekday" where
  "getDayOfWeek date =
     (let i = getDay date in
      if i = 0 then Sunday else if i = 1 then Monday else if i = 2 then Tuesday
      else if i = 3 then Wednesday else if i = 4 then Thursday else if i = 5 then Friday
      else Saturday)"

fun hours_of :: "WorkingHours \<Rightarrow> weekday \<Rightarrow> DayHours" where
  "hours_of wh Sunday = sunday wh"
| "hours_of wh Monday = monday wh"
| "hours_of wh Tuesday = tuesday wh"
| "hours_of wh Wednesday = wednesday wh"
| "hours_of wh Thursday = thursday wh"
| "hours_of wh Friday = friday wh"
| "hours_of wh Saturday = saturday wh"

text \<open>\<open>d.setHours(h, m, 0, 0)\<close>.\<close>

definition setHours :: "num \<Rightarrow> num \<times> num \<Rightarrow> num" where
  "setHours d hm = midnight d + fst hm * 60 * ms_per_minute + snd hm * ms_per_minute"

text \<open>
  The calendar provider. An event of the provider's answer carries \<open>start.dateTime\<close>
  and \<open>end.dateTime\<close>, either of which may be missing (an all-day event). \<open>getEvents\<close>
  is the provider call for a window; \<open>None\<close> is the call throwing.
\<close>

record ProviderEvent =
  pe_start :: "num option"
  pe_end :: "num option"

type_synonym provider = "num \<Rightarrow> num \<Rightarrow> ProviderEvent list option"

text \<open>
  The loop of \<open>findDayAvailableSlots\<close> over the sorted busy intervals: the state is
  \<open>currentTime\<close> and the slots found so far.
\<close>

fun find_gaps :: "num \<Rightarrow> (num \<times> num) list \<Rightarrow> num \<Rightarrow> TimeSlot list \<Rightarrow> num \<times> TimeSlot list" where
  "find_gaps bufferTime [] currentTime slots = (currentTime, slots)"
| "find_gaps bufferTime (event # events) currentTime slots =
     (let slots' =
            (if currentTime < fst event then
               (let slotEnd = fst event - bufferTime * 60 * 1000 in
                if slotEnd > currentTime then
                  (let d = Math_floor ((slotEnd - currentTime) / (60 * 1000)) in
                   if d \<ge> 30
                   then slots @ [\<lparr> slot_start = currentTime, slot_end = slotEnd, duration = d \<rparr>]
                   else slots)
                else slots)
             else slots)
      in find_gaps bufferTime events (snd event + bufferTime * 60 * 1000) slots')"

text \<open>Events with both instants, as pairs (start, end), sorted by start (the sort is stable).\<close>

definition sortedEvents :: "ProviderEvent list \<Rightarrow> (num \<times> num) list" where
  "sortedEvents events =
     sort_key fst
       (map (\<lambda>e. (the (pe_start e), the (pe_end e)))
          (filter (\<lambda>e. pe_start e \<noteq> None \<and> pe_end e \<noteq> None) events))"

text \<open>
  \<open>findDayAvailableSlots\<close> returns the slots of one day and what it wrote on the console.
  When \<open>getEvents\<close> throws, \<open>getEvents\<close> itself and the \<open>catch\<close> of this function each
  write one \<open>console.error\<close>.
\<close>

definition findDayAvailableSlots ::
  "provider \<Rightarrow> num \<Rightarrow> num \<times> num \<Rightarrow> num \<times> num \<Rightarrow> num \<Rightarrow> TimeSlot list \<times> console" where
  "findDayAvailableSlots getEvents date startTime' endTime' bufferTime =
     (let dayStart = setHours date startTime';
          dayEnd = setHours date endTime'
      in case getEvents dayStart dayEnd of
           Some events \<Rightarrow>
             (let (currentTime, slots) = find_gaps bufferTime (sortedEvents events) dayStart [] in
              if currentTime < dayEnd then
                (let d = Math_floor ((dayEnd - currentTime) / (60 * 1000)) in
                 if d \<ge> 30
                 then (slots @ [\<lparr> slot_start = currentTime, slot_end = dayEnd, duration = d \<rparr>], [])
                 else (slots, []))
              else (slots, []))
         | None \<Rightarrow>
             (let d = Math_floor ((dayEnd - dayStart) / (60 * 1000)) in
              ([\<lparr> slot_start = dayStart, slot_end = dayEnd, duration = d \<rparr>],
               [(ConsoleError, ''Failed to get events:''),
                (ConsoleError, ''Failed to find day available slots:'')])))"

text \<open>
  \<open>findAvailableTimeSlots\<close>: the loop \<open>while (currentDate <= endDate)\<close>, one day a turn.
\<close>

function findAvailableTimeSlots_loop ::
  "provider \<Rightarrow> WorkingHours \<Rightarrow> num \<Rightarrow> num \<Rightarrow> num \<Rightarrow> TimeSlot list \<times> console \<Rightarrow> TimeSlot list \<times> console" where
  "findAvailableTimeSlots_loop getEvents workingHours bufferTime endDate currentDate acc =
     (if currentDate \<le> endDate then
        (let dayConfig = hours_of workingHours (getDayOfWeek currentDate);
             acc' = (if enabled dayConfig then
                       (let (daySlots, out) =
                              findDayAvailableSlots getEvents currentDate (day_start dayConfig)
                                (day_end dayConfig) bufferTime
                        in (fst acc @ daySlots, snd acc @ out))
                     else acc)
         in findAvailableTimeSlots_loop getEvents workingHours bufferTime endDate
              (currentDate + ms_per_day) acc')
      else acc)"
  by pat_completeness auto
termination
proof (relation "measure (\<lambda>(g, w, b, e, c, a). nat (\<lfloor>(e - c) / ms_per_day\<rfloor> + 1))")
  show "wf (measure (\<lambda>(g, w, b, e, c, a). nat (\<lfloor>(e - c) / ms_per_day\<rfloor> + 1)))"
    by simp
next
  fix getEvents :: provider and workingHours :: WorkingHours
    and bufferTime endDate currentDate :: num and acc x xa :: "TimeSlot list \<times> console"
  assume le: "currentDate \<le> endDate"
  have pos: "(0::rat) < ms_per_day" by (simp add: ms_per_day_def)
  have "(endDate - (currentDate + ms_per_day)) / ms_per_day = (endDate - currentDate) / ms_per_day - 1"
    using pos by (simp add: field_simps)
  then have fl: "\<lfloor>(endDate - (currentDate + ms_per_day)) / ms_per_day\<rfloor>
      = \<lfloor>(endDate - currentDate) / ms_per_day\<rfloor> - 1"
    by simp
  have "0 \<le> (endDate - currentDate) / ms_per_day" using le pos by simp
  then have "0 \<le> \<lfloor>(endDate - currentDate) / ms_per_day\<rfloor>" by simp
  with fl show "((getEvents, workingHours, bufferTime, endDate, currentDate + ms_per_day, xa),
                 (getEvents, workingHours, bufferTime, endDate, currentDate, acc))
          \<in> measure (\<lambda>(g, w, b, e, c, a). nat (\<lfloor>(e - c) / ms_per_day\<rfloor> + 1))"
    by simp
qed

declare findAvailableTimeSlots_loop.simps [simp del]

definition findAvailableTimeSlots ::
  "provider \<Rightarrow> num \<Rightarrow> num \<Rightarrow> WorkingHours \<Rightarrow> num \<Rightarrow> TimeSlot list \<times> console" where
  "findAvailableTimeSlots getEvents startDate endDate workingHours bufferTime =
     findAvailableTimeSlots_loop getEvents workingHours bufferTime endDate startDate ([], [])"

text \<open>
  \<open>scheduleTask\<close> throws in two places; the model names the two errors after the
  specification's taxonomy. \<open>CapacityExceeded\<close> carries the two numbers of the message:
  the minutes still to place and the minutes of all free slots.
\<close>

datatype sched_error = MissingDeadline | CapacityExceeded num num | RelaxationFailed

lemma ceiling_step:
  fixes d r :: rat
  assumes "30 \<le> r" and "r < d"
  shows "\<lceil>(d - r) / 30\<rceil> < \<lceil>d / 30\<rceil>"
proof -
  have "(d - r) / 30 \<le> d / 30 - 1" using assms by (simp add: field_simps)
  then have "\<lceil>(d - r) / 30\<rceil> \<le> \<lceil>d / 30 - 1\<rceil>" by (rule ceiling_mono)
  then have "\<lceil>(d - r) / 30\<rceil> \<le> \<lceil>d / 30\<rceil> - 1" by simp
  then show ?thesis by linarith
qed

text \<open>
  The inner loop of \<open>scheduleTask\<close>,
  \<open>while (remainingPhases.length > 0 && remainingSlotTime >= 30)\<close>, inside one slot. The
  state is the phases still to place (the head's duration is decremented in place), the
  cursor \<open>slotStart\<close>, \<open>remainingSlotTime\<close> and the blocks pushed so far.
\<close>

function place_in_slot ::
  "string \<Rightarrow> num \<Rightarrow> (phase \<times> num) list \<Rightarrow> num \<Rightarrow> num \<Rightarrow> CalendarEvent list
     \<Rightarrow> (phase \<times> num) list \<times> CalendarEvent list" where
  "place_in_slot taskId bufferTime [] slotStart remainingSlotTime scheduledEvents = ([], scheduledEvents)"
| "place_in_slot taskId bufferTime ((ph, d) # rest) slotStart remainingSlotTime scheduledEvents =
     (if remainingSlotTime \<ge> 30 then
        (let timeToAllocate = min d remainingSlotTime;
             eventStart = slotStart;
             eventEnd = slotStart + timeToAllocate * 60 * 1000;
             scheduledEvents' = scheduledEvents @
               [\<lparr> ce_taskId = taskId, ce_phase = ph, startTime = eventStart, endTime = eventEnd,
                  googleEventId = None \<rparr>];
             d' = d - timeToAllocate;
             remainingPhases' = (if d' \<le> 0 then rest else (ph, d') # rest)
         in place_in_slot taskId bufferTime remainingPhases' (eventEnd + bufferTime * 60 * 1000)
              (remainingSlotTime - (timeToAllocate + bufferTime)) scheduledEvents')
      else ((ph, d) # rest, scheduledEvents))"
  by pat_completeness auto
termination
  apply (relation "measures [\<lambda>(t, b, ps, s, r, evs). length ps,
                             \<lambda>(t, b, ps, s, r, evs). (case ps of [] \<Rightarrow> 0 | (ph, d) # _ \<Rightarrow> nat \<lceil>d / 30\<rceil>)]")
   apply simp
  apply (auto simp add: min_def intro: ceiling_step split: if_splits)
  done

declare place_in_slot.simps [simp del]

text \<open>The outer loop \<open>for (const slot of availableSlots)\<close>, with its \<open>break\<close>.\<close>

fun place_in_slots ::
  "string \<Rightarrow> num \<Rightarrow> TimeSlot list \<Rightarrow> (phase \<times> num) list \<Rightarrow> CalendarEvent list
     \<Rightarrow> (phase \<times> num) list \<times> CalendarEvent list" where
  "place_in_slots taskId bufferTime [] remainingPhases scheduledEvents = (remainingPhases, scheduledEvents)"
| "place_in_slots taskId bufferTime (slot # slots) remainingPhases scheduledEvents =
     (if remainingPhases = [] then (remainingPhases, scheduledEvents)
      else (let (remainingPhases', scheduledEvents') =
                  place_in_slot taskId bufferTime remainingPhases (slot_start slot) (duration slot)
                    scheduledEvents
            in place_in_slots taskId bufferTime slots remainingPhases' scheduledEvents'))"

definition phases_of :: "TaskEstimation \<Rightarrow> (phase \<times> num) list" where
  "phases_of est =
     filter (\<lambda>p. snd p > 0)
       [(Incubation, incubation est), (Design, design est),
        (Implementation, implementation est), (Improvement, improvement est)]"

text \<open>What \<open>scheduleTask\<close> does once it holds the free slots.\<close>

definition allocate_phases ::
  "string \<Rightarrow> num \<Rightarrow> (phase \<times> num) list \<Rightarrow> TimeSlot list \<Rightarrow> sched_error + CalendarEvent list" where
  "allocate_phases taskId bufferTime phases availableSlots =
     (let (remainingPhases, scheduledEvents) = place_in_slots taskId bufferTime availableSlots phases []
      in if remainingPhases \<noteq> [] then
           Inl (CapacityExceeded (foldl (\<lambda>sum p. sum + snd p) 0 remainingPhases)
                                 (foldl (\<lambda>sum slot. sum + duration slot) 0 availableSlots))
         else Inr scheduledEvents)"

text \<open>\<open>scheduleTask\<close>; \<open>now\<close> is the clock reading of \<open>new Date()\<close>.\<close>

definition scheduleTask ::
  "provider \<Rightarrow> num \<Rightarrow> Task \<Rightarrow> TaskEstimation \<Rightarrow> WorkingHours \<Rightarrow> num \<Rightarrow> sched_error + CalendarEvent list" where
  "scheduleTask getEvents now task est workingHours bufferTime =
     (case dueDate task of
        None \<Rightarrow> Inl MissingDeadline
      | Some due \<Rightarrow>
          allocate_phases (task_id task) bufferTime (phases_of est)
            (fst (findAvailableTimeSlots getEvents now due workingHours bufferTime)))"

section \<open>Real-time rescheduler (\<open>services/realtimeScheduler.ts\<close>)\<close>

datatype trigger = Calendar_change | Task_update | Manual_adjustment

text \<open>The schedule window \<open>{start, end}\<close> and one entry of \<open>changes\<close>.\<close>

record Window =
  w_start :: num
  w_end :: num

record Change =
  ch_taskId :: string
  oldSchedule :: Window
  newSchedule :: Window

record ReschedulingEvent =
  re_id :: string
  triggeredBy :: trigger
  affectedTasks :: "string list"
  re_timestamp :: num
  changes :: "Change list"

text \<open>
  A task as \<open>getAffectedTasks\<close> reads it from storage. \<open>JSON.parse\<close> is called with
  no reviver, so \<open>dueDate\<close>, and \<open>startTime\<close> and \<open>endTime\<close> of a block, are the
  ISO strings that \<open>JSON.stringify\<close> wrote for the dates, not dates. The model keeps of
  a stored task what the program reads of it.
\<close>

record StoredBlock =
  sb_googleEventId :: "string option"
  sb_startTime :: string
  sb_endTime :: string

record StoredTask =
  st_id :: string
  st_status :: status
  st_dueDate :: "string option"
  st_calendarEvents :: "StoredBlock list option"

text \<open>
  The singleton and the storage it touches: the in-progress flag, the registered
  listeners in registration order (by identifier), the calls made to listeners so far,
  and the storage keys \<open>familytasks_rescheduling_events\<close>, \<open>familytasks_tasks\<close> and the
  working hours of \<open>familytasks_user_settings\<close> (\<open>None\<close>: the key is absent, or the
  settings have no working hours). \<open>events_write_throws\<close> says that
  \<open>localStorage.setItem\<close> throws for the events.
\<close>

record RealtimeScheduler =
  reschedulingInProgress :: bool
  eventListeners :: "string list"
  delivered :: "(string \<times> ReschedulingEvent) list"
  stored_events :: "ReschedulingEvent stored"
  events_write_throws :: bool
  stored_tasks :: "StoredTask stored"
  stored_workingHours :: "WorkingHours option"

text \<open>
  \<open>getTaskSchedule\<close>. \<open>Array.prototype.sort\<close> sorts the task's own array in place, so
  the function also returns the task as the call leaves it.
\<close>

definition getTaskSchedule :: "Task \<Rightarrow> Window option \<times> Task" where
  "getTaskSchedule task =
     (case calendarEvents task of
        None \<Rightarrow> (None, task)
      | Some [] \<Rightarrow> (None, task)
      | Some (e # es) \<Rightarrow>
          (let sortedEvents = sort_key startTime (e # es) in
           (Some \<lparr> w_start = startTime (hd sortedEvents), w_end = endTime (last sortedEvents) \<rparr>,
            task\<lparr> calendarEvents := Some sortedEvents \<rparr>)))"

definition estimateTaskTime :: "Task \<Rightarrow> TaskEstimation" where
  "estimateTaskTime task =
     (case estimation task of
        Some e \<Rightarrow> e
      | None \<Rightarrow>
          (let baseTime = 60;
               priorityMultiplier = (if priority task = 3 then 1.5 else if priority task = 1 then 0.7 else 1.0);
               adjustedTime = Math_floor (baseTime * priorityMultiplier)
           in \<lparr> incubation = Math_floor (adjustedTime * 0.2),
                design = Math_floor (adjustedTime * 0.3),
                implementation = Math_floor (adjustedTime * 0.4),
                improvement = Math_floor (adjustedTime * 0.1),
                total = adjustedTime,
                confidence = 0.7 \<rparr>))"

definition getDefaultWorkingHours :: WorkingHours where
  "getDefaultWorkingHours =
     \<lparr> monday = \<lparr> day_start = (9, 0), day_end = (18, 0), enabled = True \<rparr>,
       tuesday = \<lparr> day_start = (9, 0), day_end = (18, 0), enabled = True \<rparr>,
       wednesday = \<lparr> day_start = (9, 0), day_end = (18, 0), enabled = True \<rparr>,
       thursday = \<lparr> day_start = (9, 0), day_end = (18, 0), enabled = True \<rparr>,
       friday = \<lparr> day_start = (9, 0), day_end = (18, 0), enabled = True \<rparr>,
       saturday = \<lparr> day_start = (10, 0), day_end = (16, 0), enabled = False \<rparr>,
       sunday = \<lparr> day_start = (10, 0), day_end = (16, 0), enabled = False \<rparr> \<rparr>"

text \<open>
  \<open>scheduleTaskWithRelaxedConstraints\<close>: three \<open>try\<close> blocks in a row, each catching
  whatever \<open>scheduleTask\<close> throws; the last one throws a new error.
  \<open>setDate(getDate() + 7)\<close> adds seven days. \<open>Math.floor(x * 0.7)\<close> floors the
  product of two doubles.
\<close>

definition scheduleTaskWithRelaxedConstraints ::
  "provider \<Rightarrow> num \<Rightarrow> Task \<Rightarrow> TaskEstimation \<Rightarrow> WorkingHours \<Rightarrow> num \<Rightarrow> sched_error + CalendarEvent list" where
  "scheduleTaskWithRelaxedConstraints getEvents now task est workingHours bufferTime =
     (let second_and_third =
            (let reducedBufferTime = max 5 (bufferTime / 2) in
             case scheduleTask getEvents now task est workingHours reducedBufferTime of
               Inr events \<Rightarrow> Inr events
             | Inl _ \<Rightarrow>
                 (let reducedEstimation = est
                        \<lparr> incubation := Math_floor (fmul (incubation est) seven_tenths),
                          design := Math_floor (fmul (design est) seven_tenths),
                          implementation := Math_floor (fmul (implementation est) seven_tenths),
                          improvement := Math_floor (fmul (improvement est) seven_tenths),
                          total := Math_floor (fmul (total est) seven_tenths) \<rparr>
                  in case scheduleTask getEvents now task reducedEstimation workingHours bufferTime of
                       Inr events \<Rightarrow> Inr events
                     | Inl _ \<Rightarrow> Inl RelaxationFailed))
      in case dueDate task of
           Some originalDueDate \<Rightarrow>
             (let extendedDueDate = originalDueDate + 7 * ms_per_day;
                  taskWithExtendedDue = task\<lparr> dueDate := Some extendedDueDate \<rparr>
              in case scheduleTask getEvents now taskWithExtendedDue est workingHours bufferTime of
                   Inr events \<Rightarrow> Inr events
                 | Inl _ \<Rightarrow> second_and_third)
         | None \<Rightarrow> second_and_third)"

text \<open>
  The body of the loop \<open>for (const task of tasks)\<close> of \<open>rescheduleAffectedTasks\<close>, in
  three parts. \<open>try_schedule\<close> is the nested \<open>try\<close> that assigns \<open>newCalendarEvents\<close>:
  \<open>None\<close> is an iteration left by one of the two \<open>continue\<close> statements.
  \<open>window_of\<close> is \<open>newSchedule\<close>, from the first block's start to the last block's end.
  \<open>reschedule_task\<close> is the whole iteration: the task as it leaves it, and the entries
  it pushed to \<open>changes\<close>; \<open>eventId\<close> is the identifier of the event under
  construction. The \<open>else\<close> branch for no new block only warns.
\<close>

definition try_schedule ::
  "provider \<Rightarrow> num \<Rightarrow> WorkingHours \<Rightarrow> num \<Rightarrow> Task \<Rightarrow> TaskEstimation \<Rightarrow> CalendarEvent list option" where
  "try_schedule getEvents now finalWorkingHours bufferTime task est =
     (case scheduleTask getEvents now task est finalWorkingHours bufferTime of
        Inr events \<Rightarrow> Some events
      | Inl scheduleError \<Rightarrow>
          (case calendarEvents task of
             Some (_ # _) \<Rightarrow> None
           | _ \<Rightarrow>
               (case scheduleTaskWithRelaxedConstraints getEvents now task est
                       finalWorkingHours bufferTime of
                  Inr events \<Rightarrow> Some events
                | Inl relaxedError \<Rightarrow> None)))"

fun window_of :: "CalendarEvent list \<Rightarrow> Window option" where
  "window_of [] = None"
| "window_of (e # es) = Some \<lparr> w_start = startTime e, w_end = endTime (last (e # es)) \<rparr>"

definition reschedule_task ::
  "provider \<Rightarrow> num \<Rightarrow> WorkingHours \<Rightarrow> num \<Rightarrow> string \<Rightarrow> Task \<Rightarrow> Task \<times> Change list" where
  "reschedule_task getEvents now finalWorkingHours bufferTime eventId task0 =
     (let (oldSchedule', task) = getTaskSchedule task0;
          est = estimateTaskTime task
      in case try_schedule getEvents now finalWorkingHours bufferTime task est of
           None \<Rightarrow> (task, [])
         | Some newCalendarEvents \<Rightarrow>
             (case window_of newCalendarEvents of
                None \<Rightarrow> (task, [])
              | Some newSchedule' \<Rightarrow>
                  (let pushed =
                         (case oldSchedule' of
                            Some old \<Rightarrow>
                              if w_start old \<noteq> w_start newSchedule' \<or> w_end old \<noteq> w_end newSchedule'
                              then [\<lparr> ch_taskId = task_id task, oldSchedule = old,
                                      newSchedule = newSchedule' \<rparr>]
                              else []
                          | None \<Rightarrow> [])
                   in (task\<lparr> calendarEvents := Some newCalendarEvents,
                             scheduledStartDate := Some (w_start newSchedule'),
                             scheduledEndDate := Some (w_end newSchedule'),
                             lastRescheduled := Some now,
                             reschedulingHistory :=
                               Some ((case reschedulingHistory task of None \<Rightarrow> [] | Some h \<Rightarrow> h)
                                     @ [eventId]) \<rparr>,
                       pushed))))"

fun reschedule_loop ::
  "provider \<Rightarrow> num \<Rightarrow> WorkingHours \<Rightarrow> num \<Rightarrow> string \<Rightarrow> Task list \<Rightarrow> Task list \<times> Change list" where
  "reschedule_loop getEvents now wh bufferTime eventId [] = ([], [])"
| "reschedule_loop getEvents now wh bufferTime eventId (task # tasks) =
     (let (task', pushed) = reschedule_task getEvents now wh bufferTime eventId task;
          (tasks', pushed') = reschedule_loop getEvents now wh bufferTime eventId tasks
      in (task' # tasks', pushed @ pushed'))"

text \<open>
  \<open>saveReschedulingEvent\<close>: read the stored list (absent: empty), push, keep the last
  100, write back. The whole body is in a \<open>try\<close>: when the read or the write throws,
  the \<open>catch\<close> logs the error and storage is left as it was.
\<close>

definition saveReschedulingEvent :: "ReschedulingEvent \<Rightarrow> RealtimeScheduler \<Rightarrow> RealtimeScheduler" where
  "saveReschedulingEvent event sch =
     (case stored_events sch of
        Unreadable \<Rightarrow> sch
      | stored \<Rightarrow>
          (let events = (case stored of Present es \<Rightarrow> es | _ \<Rightarrow> []) @ [event];
               events' = (if length events > 100 then drop (length events - 100) events else events)
           in if events_write_throws sch then sch
              else sch\<lparr> stored_events := Present events' \<rparr>))"

text \<open>
  \<open>finalWorkingHours\<close>: the working hours given, else those of the stored user settings,
  else the default ones.
\<close>

definition finalWorkingHours :: "WorkingHours option \<Rightarrow> RealtimeScheduler \<Rightarrow> WorkingHours" where
  "finalWorkingHours workingHours sch =
     (case workingHours of
        Some wh \<Rightarrow> wh
      | None \<Rightarrow> (case stored_workingHours sch of Some wh \<Rightarrow> wh | None \<Rightarrow> getDefaultWorkingHours))"

text \<open>
  \<open>rescheduleAffectedTasks\<close> returns the tasks as the pass leaves them (the source
  mutates them), the event, and the scheduler with the event persisted. \<open>eventId\<close> is
  \<open>Date.now().toString()\<close>. The function neither reads nor writes
  \<open>reschedulingInProgress\<close>.
\<close>

definition rescheduleAffectedTasks ::
  "provider \<Rightarrow> num \<Rightarrow> string \<Rightarrow> Task list \<Rightarrow> trigger \<Rightarrow> WorkingHours option \<Rightarrow> num
     \<Rightarrow> RealtimeScheduler \<Rightarrow> Task list \<times> ReschedulingEvent \<times> RealtimeScheduler" where
  "rescheduleAffectedTasks getEvents now eventId tasks trig workingHours bufferTime sch =
     (let (tasks', pushed) =
            reschedule_loop getEvents now (finalWorkingHours workingHours sch) bufferTime eventId tasks;
          reschedulingEvent =
            \<lparr> re_id = eventId, triggeredBy = trig, affectedTasks = map task_id tasks,
              re_timestamp = now, changes = pushed \<rparr>
      in (tasks', reschedulingEvent, saveReschedulingEvent reschedulingEvent sch))"

text \<open>\<open>notifyListeners\<close>: every listener is called with the event, in registration order.\<close>

definition notifyListeners :: "ReschedulingEvent \<Rightarrow> RealtimeScheduler \<Rightarrow> RealtimeScheduler" where
  "notifyListeners event sch =
     sch\<lparr> delivered := delivered sch @ map (\<lambda>l. (l, event)) (eventListeners sch) \<rparr>"

text \<open>
  \<open>getAffectedTasks\<close> parses the stored tasks and keeps those with a block that
  mirrors the calendar event and a status other than done. \<open>None\<close>: the read throws.
\<close>

definition getAffectedTasks :: "RealtimeScheduler \<Rightarrow> string \<Rightarrow> StoredTask list option" where
  "getAffectedTasks sch eventId =
     (case stored_tasks sch of
        Absent \<Rightarrow> Some []
      | Unreadable \<Rightarrow> None
      | Present tasks \<Rightarrow>
          Some (filter (\<lambda>task.
                          (case st_calendarEvents task of
                             None \<Rightarrow> False
                           | Some events \<Rightarrow> list_ex (\<lambda>event. sb_googleEventId event = Some eventId) events)
                          \<and> st_status task \<noteq> Done)
                  tasks))"

text \<open>
  \<open>rescheduleAffectedTasks\<close> on tasks as \<open>getAffectedTasks\<close> returns them, with the
  working hours of the settings and the default buffer. Such a task has a block, and its
  dates are strings, so no turn of the loop reaches the \<open>push\<close> to \<open>changes\<close> or the
  update of the task:

  \<^item> with two blocks or more, the comparator of \<open>getTaskSchedule\<close> calls \<open>getTime\<close> on
    a string; the \<open>TypeError\<close> is caught by the \<open>catch\<close> of the turn;

  \<^item> with one block the sort calls no comparator and \<open>oldSchedule\<close> holds two strings.
    \<open>scheduleTask\<close> throws when there is no deadline. With a deadline, the loop
    \<open>while (currentDate <= endDate)\<close> of \<open>findAvailableTimeSlots\<close> compares a date with
    a string that is no numeral: the comparison is false, there is no free slot, and
    \<open>scheduleTask\<close> throws unless there is no phase to place, when it returns no block.
    On a throw the task has a block, so the turn ends at \<open>continue\<close>; with no block
    returned it ends at the warning.

  The tasks are the copies that \<open>JSON.parse\<close> made, which \<open>handleCalendarChange\<close> drops.
  What is left of the pass is its event, without change entries, persisted. (The
  settings, which the pass reads before the loop, are taken to parse.)
\<close>

definition rescheduleAffectedTasks_stored ::
  "num \<Rightarrow> string \<Rightarrow> StoredTask list \<Rightarrow> RealtimeScheduler \<Rightarrow> ReschedulingEvent \<times> RealtimeScheduler" where
  "rescheduleAffectedTasks_stored now eventId tasks sch =
     (let reschedulingEvent =
            \<lparr> re_id = eventId, triggeredBy = Calendar_change, affectedTasks = map st_id tasks,
              re_timestamp = now, changes = [] \<rparr>
      in (reschedulingEvent, saveReschedulingEvent reschedulingEvent sch))"

text \<open>
  \<open>handleCalendarChange\<close> (its arguments \<open>eventType\<close> and \<open>calendarId\<close> are only
  logged) is asynchronous: it tests and sets the flag, then waits for storage and for
  the pass, and clears the flag in \<open>finally\<close>.
  \<open>handleCalendarChange_enter\<close> is the part before the first wait (\<open>None\<close>: the early
  return), \<open>handleCalendarChange_finish\<close> the part after it, and \<open>handleCalendarChange\<close>
  a call that runs to its end with nothing else in between. When \<open>getAffectedTasks\<close>
  throws, the \<open>catch\<close> logs the error. \<open>now\<close> and \<open>newId\<close> are the clock reading and
  the identifier of the event of the pass.
\<close>

definition handleCalendarChange_enter :: "RealtimeScheduler \<Rightarrow> RealtimeScheduler option" where
  "handleCalendarChange_enter sch =
     (if reschedulingInProgress sch then None
      else Some (sch\<lparr> reschedulingInProgress := True \<rparr>))"

definition handleCalendarChange_finish ::
  "num \<Rightarrow> string \<Rightarrow> string \<Rightarrow> RealtimeScheduler \<Rightarrow> RealtimeScheduler" where
  "handleCalendarChange_finish now newId eventId sch =
     (case getAffectedTasks sch eventId of
        None \<Rightarrow> sch\<lparr> reschedulingInProgress := False \<rparr>
      | Some [] \<Rightarrow> sch\<lparr> reschedulingInProgress := False \<rparr>
      | Some affectedTasks' \<Rightarrow>
          (let (reschedulingEvent, sch1) = rescheduleAffectedTasks_stored now newId affectedTasks' sch;
               sch2 = notifyListeners reschedulingEvent sch1
           in sch2\<lparr> reschedulingInProgress := False \<rparr>))"

definition handleCalendarChange ::
  "num \<Rightarrow> string \<Rightarrow> string \<Rightarrow> RealtimeScheduler \<Rightarrow> RealtimeScheduler" where
  "handleCalendarChange now newId eventId sch =
     (case handleCalendarChange_enter sch of
        None \<Rightarrow> sch
      | Some sch1 \<Rightarrow> handleCalendarChange_finish now newId eventId sch1)"

text \<open>
  \<open>triggerReschedulingCheck\<close> of the hook \<open>useRealTimeSync\<close>, the manual trigger: it
  passes the tasks in memory that are not done and have a block to
  \<open>rescheduleAffectedTasks\<close>, with the working hours of the hook and the default
  buffer. \<open>None\<close>: no task needs rescheduling. The state of the hook is not modelled.
\<close>

definition triggerReschedulingCheck ::
  "provider \<Rightarrow> num \<Rightarrow> string \<Rightarrow> Task list \<Rightarrow> WorkingHours \<Rightarrow> RealtimeScheduler
     \<Rightarrow> (Task list \<times> ReschedulingEvent \<times> RealtimeScheduler) option" where
  "triggerReschedulingCheck getEvents now newId tasks workingHours sch =
     (let tasksNeedingReschedule =
            filter (\<lambda>task. task_status task \<noteq> Done
                           \<and> (case calendarEvents task of Some (e # es) \<Rightarrow> True | _ \<Rightarrow> False))
              tasks
      in if tasksNeedingReschedule \<noteq> []
         then Some (rescheduleAffectedTasks getEvents now newId tasksNeedingReschedule
                      Manual_adjustment (Some workingHours) 15 sch)
         else None)"

section \<open>Specification-side definitions and sample inputs\<close>


text \<open>
  The estimation an observation is recorded against, and the accuracy and the phase
  distribution a category has before an update (those of a fresh record when the
  category is new).
\<close>

definition recorded_estimation :: "Task \<Rightarrow> TaskEstimation" where
  "recorded_estimation task = (case estimation task of Some e \<Rightarrow> e | None \<Rightarrow> getDefaultEstimation)"


definition old_distribution :: "(string \<rightharpoonup> LearningData) \<Rightarrow> string \<Rightarrow> PhaseDistribution" where
  "old_distribution m k =
     (case m k of
        None \<Rightarrow> \<lparr> pd_incubation = 0.2, pd_design = 0.3, pd_implementation = 0.4, pd_improvement = 0.1 \<rparr>
      | Some d \<Rightarrow> phaseDistribution d)"

definition history_entry :: "num \<Rightarrow> Task \<Rightarrow> ActualTime \<Rightarrow> string \<Rightarrow> TaskHistory" where
  "history_entry now task a reason =
     \<lparr> th_taskId = task_id task, originalEstimation = recorded_estimation task,
       th_actualTime = a, adjustmentReason = reason, th_timestamp = now \<rparr>"

text \<open>A task of high priority with no project, keyword, deadline or estimation.\<close>

definition example_task :: Task where
  "example_task =
     \<lparr> task_id = ''task-1'', title = ''Test Task'', task_status = Todo, project = None,
       task_keywords = [], priority = 3, dueDate = None, estimation = None, actualTime = None,
       calendarEvents = None, scheduledStartDate = None, scheduledEndDate = None,
       lastRescheduled = None, reschedulingHistory = None \<rparr>"

definition empty_engine :: LearningEngine where
  "empty_engine =
     \<lparr> learningData = Map.empty, stored_task_history = Absent, setItem_throws = False \<rparr>"

text \<open>The same engine when storage refuses every write.\<close>

definition full_storage_engine :: LearningEngine where
  "full_storage_engine = empty_engine\<lparr> setItem_throws := True \<rparr>"

definition example_actual :: ActualTime where
  "example_actual =
     \<lparr> act_incubation = 20, act_design = 20, act_implementation = 20, act_improvement = 20 \<rparr>"

definition zero_actual :: ActualTime where
  "zero_actual =
     \<lparr> act_incubation = 0, act_design = 0, act_implementation = 0, act_improvement = 0 \<rparr>"

text \<open>An engine whose stored history is full: 1000 observations.\<close>

definition long_history_engine :: LearningEngine where
  "long_history_engine =
     empty_engine\<lparr> stored_task_history :=
       Present (replicate 1000 (history_entry 0 example_task zero_actual ''user_manual'')) \<rparr>"

text \<open>Blocks for the samples, and two tasks with blocks: one overlapping, one not.\<close>

definition block :: "phase \<Rightarrow> num \<Rightarrow> num \<Rightarrow> CalendarEvent" where
  "block ph s e =
     \<lparr> ce_taskId = ''task-1'', ce_phase = ph, startTime = s, endTime = e, googleEventId = None \<rparr>"

definition overlapping_task :: Task where
  "overlapping_task =
     example_task\<lparr> calendarEvents := Some [block Design 600000 1200000, block Incubation 0 6000000] \<rparr>"

definition ordered_task :: Task where
  "ordered_task =
     example_task\<lparr> calendarEvents := Some [block Design 600000 1200000, block Incubation 0 300000] \<rparr>"

text \<open>
  The order of the phases, the overlap of two blocks, and what a list of free slots is.
  The allocator reads the start and the duration of a slot, never its end, and uses a
  slot only when it offers 30 minutes or more. A list of free slots is one in which the
  usable slots are in chronological order and apart: the minutes a usable slot offers end
  before the next usable slot starts.
\<close>

fun phase_rank :: "phase \<Rightarrow> nat" where
  "phase_rank Incubation = 0"
| "phase_rank Design = 1"
| "phase_rank Implementation = 2"
| "phase_rank Improvement = 3"

definition overlaps :: "CalendarEvent \<Rightarrow> CalendarEvent \<Rightarrow> bool" where
  "overlaps x y = (startTime x < endTime y \<and> startTime y < endTime x)"

definition usable :: "TimeSlot \<Rightarrow> bool" where
  "usable s = (30 \<le> duration s)"

definition offered_end :: "TimeSlot \<Rightarrow> num" where
  "offered_end s = slot_start s + duration s * ms_per_minute"

definition free_slots_ok :: "TimeSlot list \<Rightarrow> bool" where
  "free_slots_ok slots =
     successively (\<lambda>s t. offered_end s \<le> slot_start t) (filter usable slots)"

text \<open>
  Providers for the samples: one whose every call throws, one with no event, and one
  that is busy for the whole of any window that starts on the first day (before
  86400000) and has no event later.
\<close>

definition failing_provider :: provider where
  "failing_provider = (\<lambda>timeMin timeMax. None)"

definition free_provider :: provider where
  "free_provider = (\<lambda>timeMin timeMax. Some [])"

definition busy_first_day :: provider where
  "busy_first_day =
     (\<lambda>timeMin timeMax.
        if timeMin < ms_per_day then Some [\<lparr> pe_start = Some timeMin, pe_end = Some timeMax \<rparr>]
        else Some [])"

text \<open>The sample task with a deadline three hours after the epoch (a Thursday).\<close>

definition deadline_task :: Task where
  "deadline_task = example_task\<lparr> dueDate := Some 10800000 \<rparr>"

definition example_blocks :: "CalendarEvent list" where
  "example_blocks =
     [block Incubation 32400000 33480000, block Design 34380000 36000000,
      block Implementation 36900000 39060000, block Improvement 39960000 40500000]"

text \<open>
  The sample task in memory with one block that mirrors the calendar event
  \<open>google-event-1\<close>, and what is read of it from storage after \<open>JSON.stringify\<close> has
  written it there.
\<close>

definition synced_task :: Task where
  "synced_task =
     deadline_task\<lparr> calendarEvents :=
       Some [(block Implementation 3600000 7200000)\<lparr> googleEventId := Some ''google-event-1'' \<rparr>] \<rparr>"

definition stored_task :: StoredTask where
  "stored_task =
     \<lparr> st_id = ''task-1'', st_status = Todo, st_dueDate = Some ''1970-01-01T03:00:00.000Z'',
       st_calendarEvents =
         Some [\<lparr> sb_googleEventId = Some ''google-event-1'',
                  sb_startTime = ''1970-01-01T01:00:00.000Z'',
                  sb_endTime = ''1970-01-01T02:00:00.000Z'' \<rparr>] \<rparr>"

text \<open>
  A scheduler at rest with one listener and nothing in storage; the same with that task
  stored; and that one while a pass is in progress.
\<close>

definition idle_scheduler :: RealtimeScheduler where
  "idle_scheduler =
     \<lparr> reschedulingInProgress = False, eventListeners = [''sync-1''], delivered = [],
       stored_events = Absent, events_write_throws = False, stored_tasks = Absent,
       stored_workingHours = None \<rparr>"

definition synced_scheduler :: RealtimeScheduler where
  "synced_scheduler = idle_scheduler\<lparr> stored_tasks := Present [stored_task] \<rparr>"

definition in_progress_scheduler :: RealtimeScheduler where
  "in_progress_scheduler = synced_scheduler\<lparr> reschedulingInProgress := True \<rparr>"

text \<open>The event of a pass of \<open>handleCalendarChange\<close> over the stored task.\<close>

definition webhook_event :: "string \<Rightarrow> ReschedulingEvent" where
  "webhook_event newId =
     \<lparr> re_id = newId, triggeredBy = Calendar_change, affectedTasks = [''task-1''],
       re_timestamp = 0, changes = [] \<rparr>"

text \<open>
  The relaxation ladder in the specification's words: the attempts in order (the first
  only for a task with a deadline), and the blocks of the first attempt that succeeds.
  \<open>shrink\<close> is a duration cut by 30 percent as the machine does it: the product with the
  double 0.7, rounded to a double, then rounded down to whole minutes.
  \<open>shrink_estimation\<close> cuts every phase and the total so. \<open>with_schedule\<close> is a task
  given new blocks by the pass that records the event \<open>eventId\<close> at \<open>now\<close>.
\<close>

definition shrink :: "num \<Rightarrow> num" where
  "shrink minutes = Math_floor (binary64 (minutes * seven_tenths))"

definition shrink_estimation :: "TaskEstimation \<Rightarrow> TaskEstimation" where
  "shrink_estimation est =
     est\<lparr> incubation := shrink (incubation est),
          design := shrink (design est),
          implementation := shrink (implementation est),
          improvement := shrink (improvement est),
          total := shrink (total est) \<rparr>"

definition with_schedule :: "Task \<Rightarrow> CalendarEvent list \<Rightarrow> num \<Rightarrow> string \<Rightarrow> Task" where
  "with_schedule task blocks now eventId =
     task\<lparr> calendarEvents := Some blocks,
           scheduledStartDate := Some (startTime (hd blocks)),
           scheduledEndDate := Some (endTime (last blocks)),
           lastRescheduled := Some now,
           reschedulingHistory :=
             Some ((case reschedulingHistory task of None \<Rightarrow> [] | Some h \<Rightarrow> h) @ [eventId]) \<rparr>"

definition ladder ::
  "provider \<Rightarrow> num \<Rightarrow> Task \<Rightarrow> TaskEstimation \<Rightarrow> WorkingHours \<Rightarrow> num \<Rightarrow> (sched_error + CalendarEvent list) list" where
  "ladder getEvents now task est wh bufferTime =
     (case dueDate task of
        Some due \<Rightarrow> [scheduleTask getEvents now (task\<lparr> dueDate := Some (due + 7 * ms_per_day) \<rparr>) est wh bufferTime]
      | None \<Rightarrow> [])
     @ [scheduleTask getEvents now task est wh (max 5 (bufferTime / 2)),
        scheduleTask getEvents now task (shrink_estimation est) wh bufferTime]"

fun first_success :: "(sched_error + CalendarEvent list) list \<Rightarrow> CalendarEvent list option" where
  "first_success [] = None"
| "first_success (Inr events # attempts) = Some events"
| "first_success (Inl e # attempts) = first_success attempts"


text \<open>
  More samples: the task already holding the blocks a free calendar gives it, a provider
  that is busy for the whole of every window, the task with one earlier block, and the
  blocks the sample task gets on the Friday.
\<close>

definition placed_task :: Task where
  "placed_task = deadline_task\<lparr> calendarEvents := Some example_blocks \<rparr>"

definition busy_provider :: provider where
  "busy_provider = (\<lambda>timeMin timeMax. Some [\<lparr> pe_start = Some timeMin, pe_end = Some timeMax \<rparr>])"

definition scheduled_task :: Task where
  "scheduled_task = deadline_task\<lparr> calendarEvents := Some [block Implementation 3600000 7200000] \<rparr>"

definition friday_blocks :: "CalendarEvent list" where
  "friday_blocks =
     [block Incubation 118800000 119880000, block Design 120780000 122400000,
      block Implementation 123300000 125460000, block Improvement 126360000 126900000]"

text \<open>
  What the proofs ask of the surroundings of the Availability Finder. The working hours
  of every enabled day lie within the day: the start time of day is not negative and
  the end time of day is not past 24 hours. The provider answers a query for a window
  with busy intervals that run forward and touch the window: each ends at or after the
  window's start and starts at or before its end.
\<close>

definition time_of_day :: "num \<times> num \<Rightarrow> num" where
  "time_of_day hm = fst hm * 60 * ms_per_minute + snd hm * ms_per_minute"

definition hours_within_day :: "WorkingHours \<Rightarrow> bool" where
  "hours_within_day wh =
     list_all (\<lambda>d. if enabled (hours_of wh d)
                    then 0 \<le> time_of_day (day_start (hours_of wh d))
                         \<and> time_of_day (day_end (hours_of wh d)) \<le> ms_per_day
                    else True)
       [Sunday, Monday, Tuesday, Wednesday, Thursday, Friday, Saturday]"

definition busy_intervals_ok :: "num \<Rightarrow> num \<Rightarrow> ProviderEvent list \<Rightarrow> bool" where
  "busy_intervals_ok timeMin timeMax events =
     list_all (\<lambda>ev. fst ev \<le> snd ev \<and> timeMin \<le> snd ev \<and> fst ev \<le> timeMax) (sortedEvents events)"

definition provider_ok :: "provider \<Rightarrow> bool" where
  "provider_ok getEvents =
     (\<forall>timeMin timeMax events.
        getEvents timeMin timeMax = Some events \<longrightarrow> busy_intervals_ok timeMin timeMax events)"

text \<open>
  Two samples outside those surroundings: working hours whose Thursday ends at 34:00,
  and a task due at midnight on Friday whose first phase takes 1500 minutes.
\<close>

definition late_thursday_hours :: WorkingHours where
  "late_thursday_hours =
     getDefaultWorkingHours\<lparr> thursday := \<lparr> day_start = (9, 0), day_end = (34, 0), enabled = True \<rparr> \<rparr>"

definition long_task :: Task where
  "long_task =
     example_task\<lparr> dueDate := Some 86400000,
                   estimation := Some \<lparr> incubation = 1500, design = 60, implementation = 0,
                                        improvement = 0, total = 1560, confidence = 0.7 \<rparr> \<rparr>"

text \<open>
  Two blocks with the same start, the longer one first; and the event of a manual pass
  that moves the block of the sample task.
\<close>

definition tied_task :: Task where
  "tied_task =
     example_task\<lparr> calendarEvents := Some [block Incubation 0 100000, block Design 0 50000] \<rparr>"

definition manual_event :: ReschedulingEvent where
  "manual_event =
     \<lparr> re_id = ''1'', triggeredBy = Manual_adjustment, affectedTasks = [''task-1''],
       re_timestamp = 0,
       changes = [\<lparr> ch_taskId = ''task-1'',
                    oldSchedule = \<lparr> w_start = 3600000, w_end = 7200000 \<rparr>,
                    newSchedule = \<lparr> w_start = 32400000, w_end = 40500000 \<rparr> \<rparr>] \<rparr>"

text \<open>
  A provider that, on the first day, is busy for the first hour of the window and again
  from 92 minutes later to the end of the window, and is busy for the whole of any later
  window; and the sample task with a single phase of 90 minutes.
\<close>

definition gap_provider :: provider where
  "gap_provider =
     (\<lambda>timeMin timeMax.
        if timeMin < ms_per_day
        then Some [\<lparr> pe_start = Some timeMin, pe_end = Some (timeMin + 3600000) \<rparr>,
                   \<lparr> pe_start = Some (timeMin + 9120000), pe_end = Some timeMax \<rparr>]
        else Some [\<lparr> pe_start = Some timeMin, pe_end = Some timeMax \<rparr>])"

definition single_phase_task :: Task where
  "single_phase_task =
     deadline_task\<lparr> estimation := Some \<lparr> incubation = 90, design = 0, implementation = 0,
                                           improvement = 0, total = 90, confidence = 0.7 \<rparr> \<rparr>"

section \<open>Rounding\<close>

text \<open>
  The products of constants that \<open>getDefaultEstimation\<close>, \<open>getImprovedEstimation\<close> and
  \<open>estimateTaskTime\<close> floor: the base time 60 with the priority multipliers, the totals
  90, 42 and 60 with the phase fractions and with the adjustment factors. The floor of the
  double product is the floor of the exact product in every case.
\<close>

lemma constant_products:
  "list_all (\<lambda>(x, c). Math_floor (fmul x (binary64 c)) = Math_floor (x * c))
     [(60, 15 / 10), (60, 7 / 10), (60, 1),
      (60, 2 / 10), (60, 3 / 10), (60, 4 / 10), (60, 1 / 10),
      (90, 2 / 10), (90, 3 / 10), (90, 4 / 10), (90, 1 / 10),
      (42, 2 / 10), (42, 3 / 10), (42, 4 / 10), (42, 1 / 10),
      (90, 12 / 10), (42, 12 / 10), (60, 12 / 10),
      (90, 9 / 10), (42, 9 / 10), (60, 9 / 10)]"
  by code_simp

text \<open>The cut of a duration by 30 percent departs from the exact one: at 90 minutes, by one.\<close>

lemma shrink_90:
  "Math_floor (fmul 90 seven_tenths) = 62 \<and> Math_floor (90 * 0.7) = 63"
  by (simp add: Math_floor_def, code_simp)

section \<open>Properties of the learning engine\<close>

lemma getDefaultEstimation_eval:
  "getDefaultEstimation =
     \<lparr> incubation = 12, design = 18, implementation = 24, improvement = 6, total = 60,
       confidence = 7 / 10 \<rparr>"
  by (simp add: getDefaultEstimation_def Math_floor_def Let_def)

lemma classify_example_task: "classifyTask example_task = cat_sonota"
  by (simp add: classifyTask_def example_task_def kw_kaimono_def kw_kounyuu_def kw_souji_def
      kw_katazuke_def kw_kaigi_def kw_meeting_def kw_benkyou_def kw_gakushuu_def)

subsection \<open>The total of an estimation\<close>

text \<open>
  With a learning record for the category, the phases of the estimation are recomputed
  from the adjusted total and the remainder goes to the implementation phase: the sum is
  the total, whatever the priority and the record.
\<close>

lemma getImprovedEstimation_learned_sum:
  assumes "m (classifyTask task) = Some ld"
  shows "phase_sum (getImprovedEstimation m task) = total (getImprovedEstimation m task)"
  using assms
  by (simp add: getImprovedEstimation_def redistributePhases_def phase_sum_def Let_def)

text \<open>Without a record the sum is the total at normal priority.\<close>

lemma getImprovedEstimation_normal_priority_sum:
  assumes "m (classifyTask task) = None" and "priority task = 2"
  shows "phase_sum (getImprovedEstimation m task) = total (getImprovedEstimation m task)"
  using assms
  by (simp add: getImprovedEstimation_def redistributePhases_def phase_sum_def Let_def
      getDefaultEstimation_eval Math_floor_def)

text \<open>
  Claim C1. The estimation that \<open>getImprovedEstimation\<close> returns has phases that sum to
  its total, with and without a learning record and at every priority. The code breaks
  this without a record at high priority: the total is scaled to 90 before
  \<open>redistributePhases\<close> computes its ratio from it, the ratio is 1, and the phases stay
  those of 60 minutes.
\<close>

theorem getImprovedEstimation_no_record_high_priority:
  "getImprovedEstimation Map.empty example_task =
     \<lparr> incubation = 12, design = 18, implementation = 24, improvement = 6, total = 90,
       confidence = 7 / 10 \<rparr>
   \<and> phase_sum (getImprovedEstimation Map.empty example_task) = 60
   \<and> total (getImprovedEstimation Map.empty example_task) = 90"
  by (simp add: getImprovedEstimation_def getDefaultEstimation_eval redistributePhases_def
      example_task_def Math_floor_def Let_def phase_sum_def)

text \<open>At low priority the total is 42 and the phases are again those of 60 minutes.\<close>

lemma getImprovedEstimation_no_record_low_priority:
  "getImprovedEstimation Map.empty (example_task\<lparr> priority := 1 \<rparr>) =
     \<lparr> incubation = 12, design = 18, implementation = 24, improvement = 6, total = 42,
       confidence = 7 / 10 \<rparr>"
  by (simp add: getImprovedEstimation_def getDefaultEstimation_eval redistributePhases_def
      example_task_def Math_floor_def Let_def)

subsection \<open>Accuracy of an observation and its moving average\<close>






subsection \<open>The phase distribution of a record\<close>

lemma ema_sum:
  fixes T :: rat
  assumes "T = a1 + a2 + a3 + a4" and "T \<noteq> 0"
  shows "(al * (a1 / T) + be * p1) + (al * (a2 / T) + be * p2) + (al * (a3 / T) + be * p3)
         + (al * (a4 / T) + be * p4) = al + be * (p1 + p2 + p3 + p4)"
proof -
  have "a1 / T + a2 / T + a3 / T + a4 / T = (a1 + a2 + a3 + a4) / T"
    by (simp add: add_divide_distrib)
  also have "\<dots> = 1" using assms by simp
  finally have one: "a1 / T + a2 / T + a3 / T + a4 / T = 1" .
  have "(al * (a1 / T) + be * p1) + (al * (a2 / T) + be * p2) + (al * (a3 / T) + be * p3)
         + (al * (a4 / T) + be * p4)
        = al * (a1 / T + a2 / T + a3 / T + a4 / T) + be * (p1 + p2 + p3 + p4)"
    by (simp add: distrib_left)
  then show ?thesis using one by simp
qed

lemma ema_sum_zero:
  fixes a1 :: rat
  assumes "a1 + a2 + a3 + a4 = 0"
  shows "(al * (a1 / 1) + be * p1) + (al * (a2 / 1) + be * p2) + (al * (a3 / 1) + be * p3)
         + (al * (a4 / 1) + be * p4) = be * (p1 + p2 + p3 + p4)"
proof -
  have "(al * (a1 / 1) + be * p1) + (al * (a2 / 1) + be * p2) + (al * (a3 / 1) + be * p3)
         + (al * (a4 / 1) + be * p4) = al * (a1 + a2 + a3 + a4) + be * (p1 + p2 + p3 + p4)"
    by (simp add: distrib_left)
  then show ?thesis using assms by simp
qed

lemma updateLearningData_distribution:
  "map_option (distribution_sum \<circ> phaseDistribution)
     (updateLearningData now task h m (classifyTask task))
    = Some (if actual_total (th_actualTime h) = 0
            then 9 / 10 * distribution_sum (old_distribution m (classifyTask task))
            else 1 / 10 + 9 / 10 * distribution_sum (old_distribution m (classifyTask task)))"
proof (cases "actual_total (th_actualTime h) = 0")
  case True
  then have z: "act_incubation (th_actualTime h) + act_design (th_actualTime h)
      + act_implementation (th_actualTime h) + act_improvement (th_actualTime h) = 0"
    by (simp add: actual_total_def)
  show ?thesis
    using True ema_sum_zero [OF z, of "1 / 10" "9 / 10"]
    by (simp add: updateLearningData_def Let_def old_distribution_def createInitialLearningData_def
        distribution_sum_def split: option.split)
next
  case False
  have T: "actual_total (th_actualTime h) = act_incubation (th_actualTime h)
      + act_design (th_actualTime h) + act_implementation (th_actualTime h)
      + act_improvement (th_actualTime h)"
    by (simp add: actual_total_def)
  show ?thesis
    using False ema_sum [OF T False, of "1 / 10" "9 / 10"]
    by (simp add: updateLearningData_def Let_def old_distribution_def createInitialLearningData_def
        distribution_sum_def split: option.split)
qed

text \<open>
  Claim C5, as the code has it. In exact arithmetic: when the fractions of the category
  sum to 1 before the update (those of a new category do) and the actual minutes of the
  observation do not sum to zero, the fractions sum to 1 after \<open>updateLearningData\<close>.
  When the actual minutes sum to zero the divisor is 1, the observation adds nothing and
  the sum of the fractions is 0.9 times what it was.
\<close>

theorem updateLearningData_distribution_sum:
  "(actual_total (th_actualTime h) \<noteq> 0 \<and> distribution_sum (old_distribution m (classifyTask task)) = 1
      \<longrightarrow> map_option (distribution_sum \<circ> phaseDistribution)
            (updateLearningData now task h m (classifyTask task)) = Some 1)
   \<and> (actual_total (th_actualTime h) = 0
      \<longrightarrow> map_option (distribution_sum \<circ> phaseDistribution)
            (updateLearningData now task h m (classifyTask task))
          = Some (0.9 * distribution_sum (old_distribution m (classifyTask task))))"
  by (simp add: updateLearningData_distribution)

theorem updateLearningData_distribution_sum_witness:
  "actual_total (th_actualTime (history_entry 0 example_task example_actual ''user_manual'')) = 80
   \<and> distribution_sum (old_distribution Map.empty (classifyTask example_task)) = 1
   \<and> map_option (distribution_sum \<circ> phaseDistribution)
        (updateLearningData 0 example_task (history_entry 0 example_task example_actual ''user_manual'')
           Map.empty (classifyTask example_task)) = Some 1
   \<and> actual_total (th_actualTime (history_entry 0 example_task zero_actual ''user_manual'')) = 0
   \<and> map_option (distribution_sum \<circ> phaseDistribution)
        (updateLearningData 0 example_task (history_entry 0 example_task zero_actual ''user_manual'')
           Map.empty (classifyTask example_task)) = Some (0.9 * 1)"
  using updateLearningData_distribution_sum [of "history_entry 0 example_task example_actual ''user_manual''"
      Map.empty example_task 0]
    updateLearningData_distribution_sum [of "history_entry 0 example_task zero_actual ''user_manual''"
      Map.empty example_task 0]
  by (simp add: history_entry_def example_actual_def zero_actual_def actual_total_def
      old_distribution_def distribution_sum_def)

text \<open>
  Claim C5 as stated fails on an observation whose actual minutes are all zero: recorded
  against a new category, it leaves the fractions 0.18, 0.27, 0.36 and 0.09, which sum
  to 0.9.
\<close>

theorem updateLearningData_zero_total_counterexample:
  "actual_total zero_actual = 0
   \<and> map_option phaseDistribution
        (updateLearningData 0 example_task (history_entry 0 example_task zero_actual ''user_manual'')
           Map.empty (classifyTask example_task))
      = Some \<lparr> pd_incubation = 18 / 100, pd_design = 27 / 100, pd_implementation = 36 / 100,
               pd_improvement = 9 / 100 \<rparr>
   \<and> map_option (distribution_sum \<circ> phaseDistribution)
        (updateLearningData 0 example_task (history_entry 0 example_task zero_actual ''user_manual'')
           Map.empty (classifyTask example_task))
      = Some (9 / 10)"
  by (simp add: updateLearningData_def Let_def history_entry_def zero_actual_def actual_total_def
      createInitialLearningData_def distribution_sum_def)

subsection \<open>Recording an observation\<close>

text \<open>
  Claim C10, as the code has it. \<open>recordActualTime\<close> leaves the task as it was but for
  \<open>actualTime\<close>, which is the record given (so the estimation is the one the task had).
  When the stored history can be read and storage takes the write, the persisted history
  is the last 1000 entries of the history before with the observation appended: it has
  at most 1000 entries and the observation is the last. When the read or the write throws,
  the persisted history is what it was.
\<close>

theorem recordActualTime_frame:
  "snd (recordActualTime now task a reason eng) = task\<lparr> actualTime := Some a \<rparr>
   \<and> estimation (snd (recordActualTime now task a reason eng)) = estimation task
   \<and> stored_task_history (fst (recordActualTime now task a reason eng))
       = (if stored_task_history eng = Unreadable \<or> setItem_throws eng
          then stored_task_history eng
          else Present (let old = (case stored_task_history eng of Present hs \<Rightarrow> hs | _ \<Rightarrow> []);
                            appended = old @ [history_entry now task a reason]
                        in drop (length appended - 1000) appended))
   \<and> (stored_task_history eng \<noteq> Unreadable \<and> \<not> setItem_throws eng \<longrightarrow>
         (\<exists>hs. stored_task_history (fst (recordActualTime now task a reason eng)) = Present hs
               \<and> length hs \<le> 1000 \<and> last hs = history_entry now task a reason))"
  by (auto simp add: recordActualTime_def Let_def saveTaskHistory_def recorded_estimation_def
      history_entry_def split: stored.split)

theorem recordActualTime_frame_witness:
  "snd (recordActualTime 0 example_task example_actual ''user_manual'' empty_engine)
     = example_task\<lparr> actualTime := Some example_actual \<rparr>
   \<and> stored_task_history (fst (recordActualTime 0 example_task example_actual ''user_manual'' empty_engine))
     = Present [history_entry 0 example_task example_actual ''user_manual'']
   \<and> stored_task_history
        (fst (recordActualTime 1 example_task example_actual ''user_manual'' long_history_engine))
     = Present (replicate 999 (history_entry 0 example_task zero_actual ''user_manual'')
                @ [history_entry 1 example_task example_actual ''user_manual''])"
  using recordActualTime_frame [of 0 example_task example_actual "''user_manual''" empty_engine]
    recordActualTime_frame [of 1 example_task example_actual "''user_manual''" long_history_engine]
  by (simp add: empty_engine_def long_history_engine_def)

text \<open>
  Claim C10 as stated has every observation appended to the persisted history. When
  storage refuses the write, \<open>saveTaskHistory\<close> catches the error: the task gets its
  \<open>actualTime\<close> and the persisted history stays without the observation.
\<close>

theorem recordActualTime_storage_failure_counterexample:
  "setItem_throws full_storage_engine
   \<and> stored_task_history full_storage_engine = Absent
   \<and> snd (recordActualTime 0 example_task example_actual ''user_manual'' full_storage_engine)
       = example_task\<lparr> actualTime := Some example_actual \<rparr>
   \<and> stored_task_history
        (fst (recordActualTime 0 example_task example_actual ''user_manual'' full_storage_engine))
       = Absent"
  by (simp add: recordActualTime_def saveTaskHistory_def full_storage_engine_def empty_engine_def
      Let_def)

section \<open>Properties of the scheduler\<close>

subsection \<open>Placing phases into one slot and into a list of slots\<close>

text \<open>
  The inner loop keeps these facts: the durations still to place are positive, the phases
  of the blocks placed and then of the phases still to place are in phase order, every
  block ends before the blocks after it start and before the cursor, and every block
  runs forward. A block placed in this slot ends within the minutes the slot offers.
\<close>

lemma place_in_slot_inv:
  assumes "0 \<le> b"
    and "place_in_slot tid b phases s r evs = (phases', evs')"
    and "list_all (\<lambda>p. 0 < snd p) phases"
    and "sorted (map (\<lambda>x. phase_rank (ce_phase x)) evs @ map (\<lambda>p. phase_rank (fst p)) phases)"
    and "sorted_wrt (\<lambda>x y. endTime x \<le> startTime y) evs"
    and "\<forall>x\<in>set evs. endTime x \<le> s"
    and "list_all (\<lambda>x. startTime x < endTime x) evs"
  shows "list_all (\<lambda>p. 0 < snd p) phases'
       \<and> sorted (map (\<lambda>x. phase_rank (ce_phase x)) evs' @ map (\<lambda>p. phase_rank (fst p)) phases')
       \<and> sorted_wrt (\<lambda>x y. endTime x \<le> startTime y) evs'
       \<and> (\<forall>x\<in>set evs'. x \<in> set evs \<or> endTime x \<le> s + r * 60 * 1000)
       \<and> list_all (\<lambda>x. startTime x < endTime x) evs'"
  using assms
proof (induction tid b phases s r evs arbitrary: phases' evs' rule: place_in_slot.induct)
  case (1 taskId bufferTime slotStart remainingSlotTime scheduledEvents)
  then have "phases' = []" "evs' = scheduledEvents" by (simp_all add: place_in_slot.simps)
  with 1 show ?case by auto
next
  case (2 taskId bufferTime ph d rest slotStart remainingSlotTime scheduledEvents)
  show ?case
  proof (cases "30 \<le> remainingSlotTime")
    case False
    with "2.prems"(2) have "phases' = (ph, d) # rest" "evs' = scheduledEvents"
      by (simp_all add: place_in_slot.simps)
    with "2.prems" show ?thesis by auto
  next
    case True
    let ?alloc = "min d remainingSlotTime"
    let ?eventEnd = "slotStart + ?alloc * 60 * 1000"
    let ?blk = "\<lparr> ce_taskId = taskId, ce_phase = ph, startTime = slotStart,
       endTime = ?eventEnd, googleEventId = None \<rparr>"
    let ?phs = "(if d - ?alloc \<le> 0 then rest else (ph, d - ?alloc) # rest)"
    let ?s' = "?eventEnd + bufferTime * 60 * 1000"
    let ?r' = "remainingSlotTime - (?alloc + bufferTime)"
    have dpos: "0 < d" using "2.prems"(3) by simp
    have apos: "0 < ?alloc" using dpos True by simp
    have ale: "?alloc \<le> remainingSlotTime" by simp
    have unfold: "place_in_slot taskId bufferTime ((ph, d) # rest) slotStart remainingSlotTime scheduledEvents
        = place_in_slot taskId bufferTime ?phs ?s' ?r' (scheduledEvents @ [?blk])"
      by (subst place_in_slot.simps(2)) (simp only: True if_True Let_def)
    have rec: "place_in_slot taskId bufferTime ?phs ?s' ?r' (scheduledEvents @ [?blk]) = (phases', evs')"
      using "2.prems"(2) unfold by simp
    have p1: "list_all (\<lambda>p. 0 < snd p) ?phs"
      using "2.prems"(3) by auto
    have p2: "sorted (map (\<lambda>x. phase_rank (ce_phase x)) (scheduledEvents @ [?blk])
                @ map (\<lambda>p. phase_rank (fst p)) ?phs)"
      using "2.prems"(4) by (auto simp add: sorted_append)
    have p3: "sorted_wrt (\<lambda>x y. endTime x \<le> startTime y) (scheduledEvents @ [?blk])"
      using "2.prems"(5,6) by (auto simp add: sorted_wrt_append)
    have ee: "slotStart < ?eventEnd" using apos by simp
    have bnn: "0 \<le> bufferTime * 60 * 1000" using "2.prems"(1) by simp
    have p4: "\<forall>x\<in>set (scheduledEvents @ [?blk]). endTime x \<le> ?s'"
    proof
      fix x assume "x \<in> set (scheduledEvents @ [?blk])"
      then consider "x \<in> set scheduledEvents" | "x = ?blk" by auto
      then show "endTime x \<le> ?s'"
      proof cases
        case 1
        then have "endTime x \<le> slotStart" using "2.prems"(6) by blast
        then show ?thesis using ee bnn by linarith
      next
        case 2
        then show ?thesis using bnn by simp
      qed
    qed
    have p5: "list_all (\<lambda>x. startTime x < endTime x) (scheduledEvents @ [?blk])"
      using "2.prems"(7) ee by simp
    have IH: "list_all (\<lambda>p. 0 < snd p) phases'
       \<and> sorted (map (\<lambda>x. phase_rank (ce_phase x)) evs' @ map (\<lambda>p. phase_rank (fst p)) phases')
       \<and> sorted_wrt (\<lambda>x y. endTime x \<le> startTime y) evs'
       \<and> (\<forall>x\<in>set evs'. x \<in> set (scheduledEvents @ [?blk]) \<or> endTime x \<le> ?s' + ?r' * 60 * 1000)
       \<and> list_all (\<lambda>x. startTime x < endTime x) evs'"
      by (rule "2.IH" [OF True refl refl refl refl refl refl "2.prems"(1) rec p1 p2 p3 p4 p5])
    have e1: "?s' + ?r' * 60 * 1000 = slotStart + remainingSlotTime * 60 * 1000"
      by (simp add: algebra_simps)
    have e2: "endTime ?blk \<le> slotStart + remainingSlotTime * 60 * 1000"
      using ale by simp
    have bound: "\<forall>x\<in>set evs'. x \<in> set scheduledEvents \<or> endTime x \<le> slotStart + remainingSlotTime * 60 * 1000"
    proof
      fix x assume "x \<in> set evs'"
      then have "x \<in> set (scheduledEvents @ [?blk]) \<or> endTime x \<le> ?s' + ?r' * 60 * 1000"
        using IH by blast
      then consider "x \<in> set scheduledEvents" | "x = ?blk" | "endTime x \<le> ?s' + ?r' * 60 * 1000"
        by auto
      then show "x \<in> set scheduledEvents \<or> endTime x \<le> slotStart + remainingSlotTime * 60 * 1000"
      proof cases
        case 1 then show ?thesis by simp
      next
        case 2 then show ?thesis using e2 by simp
      next
        case 3 then show ?thesis using e1 by simp
      qed
    qed
    show ?thesis using IH bound by blast
  qed
qed

lemma place_in_slot_short:
  assumes "\<not> 30 \<le> r"
  shows "place_in_slot tid b phases s r evs = (phases, evs)"
  using assms by (cases phases) (auto simp add: place_in_slot.simps)

lemma place_in_slots_inv:
  assumes "0 \<le> b"
    and "free_slots_ok slots"
    and "place_in_slots tid b slots phases evs = (phases', evs')"
    and "list_all (\<lambda>p. 0 < snd p) phases"
    and "sorted (map (\<lambda>x. phase_rank (ce_phase x)) evs @ map (\<lambda>p. phase_rank (fst p)) phases)"
    and "sorted_wrt (\<lambda>x y. endTime x \<le> startTime y) evs"
    and "filter usable slots \<noteq> [] \<longrightarrow>
           (\<forall>x\<in>set evs. endTime x \<le> slot_start (hd (filter usable slots)))"
    and "list_all (\<lambda>x. startTime x < endTime x) evs"
  shows "sorted (map (\<lambda>x. phase_rank (ce_phase x)) evs' @ map (\<lambda>p. phase_rank (fst p)) phases')
       \<and> sorted_wrt (\<lambda>x y. endTime x \<le> startTime y) evs'
       \<and> list_all (\<lambda>x. startTime x < endTime x) evs'"
  using assms
proof (induction slots arbitrary: phases evs)
  case Nil
  then show ?case by simp
next
  case (Cons sl slots)
  show ?case
  proof (cases "phases = []")
    case True
    with Cons.prems show ?thesis by simp
  next
    case False
    show ?thesis
    proof (cases "usable sl")
      case no: False
      then have same: "place_in_slot tid b phases (slot_start sl) (duration sl) evs = (phases, evs)"
        by (simp add: usable_def place_in_slot_short)
      have rest: "place_in_slots tid b slots phases evs = (phases', evs')"
        using Cons.prems(3) False same by simp
      have frest: "free_slots_ok slots" using Cons.prems(2) no by (simp add: free_slots_ok_def)
      have nxt: "filter usable slots \<noteq> [] \<longrightarrow>
           (\<forall>x\<in>set evs. endTime x \<le> slot_start (hd (filter usable slots)))"
        using Cons.prems(7) no by simp
      show ?thesis
        by (rule Cons.IH [OF Cons.prems(1) frest rest Cons.prems(4) Cons.prems(5) Cons.prems(6)
              nxt Cons.prems(8)])
    next
      case yes: True
      obtain ph1 ev1 where step: "place_in_slot tid b phases (slot_start sl) (duration sl) evs = (ph1, ev1)"
        by (cases "place_in_slot tid b phases (slot_start sl) (duration sl) evs") auto
      have rest: "place_in_slots tid b slots ph1 ev1 = (phases', evs')"
        using Cons.prems(3) False step by simp
      have bnd: "\<forall>x\<in>set evs. endTime x \<le> slot_start sl" using Cons.prems(7) yes by simp
      have inv: "list_all (\<lambda>p. 0 < snd p) ph1
         \<and> sorted (map (\<lambda>x. phase_rank (ce_phase x)) ev1 @ map (\<lambda>p. phase_rank (fst p)) ph1)
         \<and> sorted_wrt (\<lambda>x y. endTime x \<le> startTime y) ev1
         \<and> (\<forall>x\<in>set ev1. x \<in> set evs \<or> endTime x \<le> slot_start sl + duration sl * 60 * 1000)
         \<and> list_all (\<lambda>x. startTime x < endTime x) ev1"
        by (rule place_in_slot_inv [OF Cons.prems(1) step Cons.prems(4) Cons.prems(5) Cons.prems(6)
              bnd Cons.prems(8)])
      have frest: "free_slots_ok slots"
        using Cons.prems(2) yes
        by (cases "filter usable slots") (auto simp add: free_slots_ok_def)
      have fwd: "slot_start sl \<le> offered_end sl"
        using yes by (simp add: usable_def offered_end_def ms_per_minute_def)
      have upper: "\<forall>x\<in>set ev1. endTime x \<le> offered_end sl"
      proof
        fix x assume "x \<in> set ev1"
        then have "x \<in> set evs \<or> endTime x \<le> slot_start sl + duration sl * 60 * 1000"
          using inv by blast
        then show "endTime x \<le> offered_end sl"
          using bnd fwd by (auto simp add: offered_end_def ms_per_minute_def)
      qed
      have nxt: "filter usable slots \<noteq> [] \<longrightarrow>
           (\<forall>x\<in>set ev1. endTime x \<le> slot_start (hd (filter usable slots)))"
      proof
        assume "filter usable slots \<noteq> []"
        then obtain t ts where ts: "filter usable slots = t # ts" by (cases "filter usable slots") auto
        then have "offered_end sl \<le> slot_start t"
          using Cons.prems(2) yes by (simp add: free_slots_ok_def)
        then show "\<forall>x\<in>set ev1. endTime x \<le> slot_start (hd (filter usable slots))"
          using upper ts by fastforce
      qed
      show ?thesis
        using Cons.IH [OF Cons.prems(1) frest rest] inv nxt by blast
    qed
  qed
qed

lemma phases_of_sorted: "sorted (map (\<lambda>p. phase_rank (fst p)) (phases_of est))"
  by (simp add: phases_of_def)

lemma phases_of_positive: "list_all (\<lambda>p. 0 < snd p) (phases_of est)"
  by (simp add: phases_of_def)

lemma allocate_phases_blocks:
  assumes "allocate_phases tid b (phases_of est) slots = Inr blocks"
    and "0 \<le> b" and "free_slots_ok slots"
  shows "sorted_wrt (\<lambda>x y. \<not> overlaps x y) blocks
       \<and> sorted_wrt (\<lambda>x y. endTime x \<le> startTime y) blocks
       \<and> sorted (map startTime blocks)
       \<and> sorted (map (\<lambda>x. phase_rank (ce_phase x)) blocks)
       \<and> list_all (\<lambda>x. startTime x < endTime x) blocks"
proof -
  obtain ph1 where run: "place_in_slots tid b slots (phases_of est) [] = (ph1, blocks)" and "ph1 = []"
    using assms(1)
    by (cases "place_in_slots tid b slots (phases_of est) []")
       (auto simp add: allocate_phases_def split: if_splits)
  have "sorted (map (\<lambda>x. phase_rank (ce_phase x)) blocks @ map (\<lambda>p. phase_rank (fst p)) ph1)
       \<and> sorted_wrt (\<lambda>x y. endTime x \<le> startTime y) blocks
       \<and> list_all (\<lambda>x. startTime x < endTime x) blocks"
    by (rule place_in_slots_inv [OF assms(2) assms(3) run phases_of_positive])
       (simp_all add: phases_of_sorted)
  then have base: "sorted_wrt (\<lambda>x y. endTime x \<le> startTime y) blocks
       \<and> sorted (map (\<lambda>x. phase_rank (ce_phase x)) blocks)
       \<and> list_all (\<lambda>x. startTime x < endTime x) blocks"
    using \<open>ph1 = []\<close> by simp
  have pos: "\<forall>x\<in>set blocks. startTime x < endTime x" using base by (simp add: list_all_iff)
  have no: "sorted_wrt (\<lambda>x y. \<not> overlaps x y) blocks"
    using base by (auto simp add: overlaps_def elim!: sorted_wrt_mono_rel [rotated])
  have "sorted_wrt (\<lambda>x y. startTime x \<le> startTime y) blocks"
  proof (rule sorted_wrt_mono_rel [of blocks "\<lambda>x y. endTime x \<le> startTime y"])
    show "sorted_wrt (\<lambda>x y. endTime x \<le> startTime y) blocks" using base by simp
  next
    fix x y assume "x \<in> set blocks" "y \<in> set blocks" "endTime x \<le> startTime y"
    then show "startTime x \<le> startTime y" using pos by fastforce
  qed
  then have "sorted (map startTime blocks)" by (simp add: sorted_map)
  then show ?thesis using base no by simp
qed

text \<open>
  When \<open>scheduleTask\<close> succeeds, with a buffer that is not negative and free
  slots that form a list of free slots (the slots of 30 minutes or more are in
  chronological order, each offering its minutes before the next starts), the blocks it
  returns do not overlap pairwise, each ends before every later one starts, their starts
  are in chronological order, their phases are in the fixed phase order, and every block
  ends after it starts.
\<close>

lemma scheduleTask_blocks_given_slots:
  assumes "scheduleTask getEvents now task est workingHours bufferTime = Inr blocks"
    and "0 \<le> bufferTime"
    and "free_slots_ok (fst (findAvailableTimeSlots getEvents now (the (dueDate task)) workingHours bufferTime))"
  shows "sorted_wrt (\<lambda>x y. \<not> overlaps x y) blocks
       \<and> sorted_wrt (\<lambda>x y. endTime x \<le> startTime y) blocks
       \<and> sorted (map startTime blocks)
       \<and> sorted (map (\<lambda>x. phase_rank (ce_phase x)) blocks)
       \<and> list_all (\<lambda>x. startTime x < endTime x) blocks"
proof -
  obtain due where due: "dueDate task = Some due" using assms(1)
    by (cases "dueDate task") (auto simp add: scheduleTask_def)
  have al: "allocate_phases (task_id task) bufferTime (phases_of est)
      (fst (findAvailableTimeSlots getEvents now due workingHours bufferTime)) = Inr blocks"
    using assms(1) due by (simp add: scheduleTask_def)
  show ?thesis
    using allocate_phases_blocks [OF al assms(2)] assms(3) due by simp
qed

subsection \<open>Evaluating the samples\<close>

lemmas eval_defs = findAvailableTimeSlots_def findAvailableTimeSlots_loop.simps free_provider_def failing_provider_def
  busy_first_day_def getDefaultWorkingHours_def getDayOfWeek_def getDay_def
  findDayAvailableSlots_def setHours_def midnight_def ms_per_day_def ms_per_minute_def Math_floor_def
  sortedEvents_def Let_def

lemma free_slots_example:
  "findAvailableTimeSlots free_provider 0 10800000 getDefaultWorkingHours 15
     = ([\<lparr> slot_start = 32400000, slot_end = 64800000, duration = 540 \<rparr>], [])"
  by (simp add: eval_defs)

lemma scheduleTask_example:
  "scheduleTask free_provider 0 deadline_task (estimateTaskTime deadline_task) getDefaultWorkingHours 15
     = Inr example_blocks"
  by (simp add: scheduleTask_def deadline_task_def example_task_def free_slots_example
      allocate_phases_def phases_of_def estimateTaskTime_def Math_floor_def Let_def block_def
      example_blocks_def place_in_slot.simps)

subsection \<open>A day whose provider query fails\<close>

text \<open>
  Claim C4, as the code has it. When the provider query for a day throws,
  \<open>findDayAvailableSlots\<close> returns the whole working window of the day as one slot (of
  whatever length, with the whole minutes of its span as duration). The failure is
  written to the console at error level and nowhere else: the slots returned are those
  of a day without events whenever the window spans 30 minutes or more.
\<close>

theorem findDayAvailableSlots_provider_failure:
  "getEvents (setHours date st) (setHours date en) = None \<longrightarrow>
     fst (findDayAvailableSlots getEvents date st en bufferTime)
       = [\<lparr> slot_start = setHours date st, slot_end = setHours date en,
            duration = Math_floor ((setHours date en - setHours date st) / (60 * 1000)) \<rparr>]
     \<and> snd (findDayAvailableSlots getEvents date st en bufferTime) \<noteq> []
     \<and> list_all (\<lambda>entry. fst entry = ConsoleError)
          (snd (findDayAvailableSlots getEvents date st en bufferTime))
     \<and> (30 \<le> Math_floor ((setHours date en - setHours date st) / (60 * 1000)) \<longrightarrow>
          fst (findDayAvailableSlots getEvents date st en bufferTime)
            = fst (findDayAvailableSlots (\<lambda>timeMin timeMax. Some []) date st en bufferTime))"
  by (auto simp add: findDayAvailableSlots_def Let_def sortedEvents_def Math_floor_def)

theorem findDayAvailableSlots_provider_failure_witness:
  "failing_provider (setHours 0 (9, 0)) (setHours 0 (18, 0)) = None
   \<and> fst (findDayAvailableSlots failing_provider 0 (9, 0) (18, 0) 15)
       = [\<lparr> slot_start = 32400000, slot_end = 64800000, duration = 540 \<rparr>]
   \<and> list_all (\<lambda>entry. fst entry = ConsoleError)
        (snd (findDayAvailableSlots failing_provider 0 (9, 0) (18, 0) 15))
   \<and> fst (findDayAvailableSlots failing_provider 0 (9, 0) (18, 0) 15)
       = fst (findDayAvailableSlots free_provider 0 (9, 0) (18, 0) 15)"
  using findDayAvailableSlots_provider_failure [of failing_provider 0 "(9, 0)" "(18, 0)" 15]
  by (simp add: eval_defs)

text \<open>
  Claim C4 as stated asks for a warning-level signal to the caller. On the sample day
  the console holds two entries, both at error level, none at warning level, and the
  slots are the slots of a free day.
\<close>

theorem findDayAvailableSlots_no_warning_counterexample:
  "failing_provider (setHours 0 (9, 0)) (setHours 0 (18, 0)) = None
   \<and> snd (findDayAvailableSlots failing_provider 0 (9, 0) (18, 0) 15)
       = [(ConsoleError, ''Failed to get events:''),
          (ConsoleError, ''Failed to find day available slots:'')]
   \<and> \<not> list_ex (\<lambda>entry. fst entry = ConsoleWarn)
          (snd (findDayAvailableSlots failing_provider 0 (9, 0) (18, 0) 15))
   \<and> fst (findDayAvailableSlots failing_provider 0 (9, 0) (18, 0) 15)
       = fst (findDayAvailableSlots free_provider 0 (9, 0) (18, 0) 15)"
  by (simp add: eval_defs)

subsection \<open>The free slots of the Availability Finder\<close>

text \<open>
  What \<open>findAvailableTimeSlots\<close> returns is a list of free slots whenever the buffer is not negative, the working hours of enabled days lie
  within the day, and the provider answers with busy intervals that run forward and
  touch the window asked for; a failing provider is allowed. Busy intervals may overlap
  one another. The loop over the busy intervals of a day keeps every slot within the
  working window and before the cursor, and the loop over the days keeps every slot
  before the midnight that starts the current day.
\<close>

lemma find_gaps_inv:
  assumes "0 \<le> b"
    and "find_gaps b evs cur slots = (cur', slots')"
    and "sorted (map fst evs)"
    and "list_all (\<lambda>ev. fst ev \<le> snd ev \<and> lo \<le> snd ev \<and> fst ev \<le> hi) evs"
    and "lo \<le> cur"
    and "\<forall>sl\<in>set slots. usable sl \<and> lo \<le> slot_start sl \<and> offered_end sl \<le> hi
            \<and> offered_end sl \<le> cur \<and> (\<forall>ev\<in>set evs. offered_end sl + b * 60 * 1000 \<le> fst ev)"
    and "successively (\<lambda>s t. offered_end s \<le> slot_start t) slots"
  shows "lo \<le> cur'
       \<and> (\<forall>sl\<in>set slots'. usable sl \<and> lo \<le> slot_start sl \<and> offered_end sl \<le> hi \<and> offered_end sl \<le> cur')
       \<and> successively (\<lambda>s t. offered_end s \<le> slot_start t) slots'"
  using assms
proof (induction evs arbitrary: cur slots)
  case Nil
  then show ?case by auto
next
  case (Cons ev evs)
  obtain s e where ev: "ev = (s, e)" by (cases ev) auto
  have bnn: "0 \<le> b * 60 * 1000" using Cons.prems(1) by simp
  have se: "s \<le> e" "lo \<le> e" "s \<le> hi" using Cons.prems(4) ev by auto
  have later: "\<forall>x\<in>set evs. s \<le> fst x" using Cons.prems(3) ev by auto
  let ?d = "Math_floor ((s - b * 60 * 1000 - cur) / (60 * 1000))"
  let ?new = "\<lparr> slot_start = cur, slot_end = s - b * 60 * 1000, duration = ?d \<rparr>"
  let ?push = "cur < s \<and> s - b * 60 * 1000 > cur \<and> ?d \<ge> 30"
  let ?slots1 = "if ?push then slots @ [?new] else slots"
  let ?cur1 = "e + b * 60 * 1000"
  have step: "find_gaps b evs ?cur1 ?slots1 = (cur', slots')"
    using Cons.prems(2) ev by (auto simp add: Let_def split: if_splits)
  have dle: "?d * 60 * 1000 \<le> s - b * 60 * 1000 - cur"
  proof -
    have "of_int \<lfloor>(s - b * 60 * 1000 - cur) / (60 * 1000)\<rfloor> \<le> (s - b * 60 * 1000 - cur) / (60 * 1000)"
      by (rule of_int_floor_le)
    then show ?thesis by (simp add: Math_floor_def field_simps)
  qed
  have newend: "offered_end ?new \<le> s - b * 60 * 1000"
    using dle by (simp add: offered_end_def ms_per_minute_def algebra_simps)
  have p4: "list_all (\<lambda>ev. fst ev \<le> snd ev \<and> lo \<le> snd ev \<and> fst ev \<le> hi) evs"
    using Cons.prems(4) by simp
  have p3: "sorted (map fst evs)" using Cons.prems(3) by simp
  have p5: "lo \<le> ?cur1" using se bnn by linarith
  have old: "\<forall>sl\<in>set slots. usable sl \<and> lo \<le> slot_start sl \<and> offered_end sl \<le> hi
            \<and> offered_end sl \<le> ?cur1 \<and> (\<forall>x\<in>set evs. offered_end sl + b * 60 * 1000 \<le> fst x)"
  proof
    fix sl assume sl: "sl \<in> set slots"
    then have a: "usable sl" "lo \<le> slot_start sl" "offered_end sl \<le> hi"
      and c: "\<forall>x\<in>set (ev # evs). offered_end sl + b * 60 * 1000 \<le> fst x"
      using Cons.prems(6) by auto
    have "offered_end sl + b * 60 * 1000 \<le> s" using c ev by simp
    then have "offered_end sl \<le> ?cur1" using se bnn by linarith
    then show "usable sl \<and> lo \<le> slot_start sl \<and> offered_end sl \<le> hi
            \<and> offered_end sl \<le> ?cur1 \<and> (\<forall>x\<in>set evs. offered_end sl + b * 60 * 1000 \<le> fst x)"
      using a c by simp
  qed
  have new: "?push \<longrightarrow> usable ?new \<and> lo \<le> slot_start ?new \<and> offered_end ?new \<le> hi
            \<and> offered_end ?new \<le> ?cur1 \<and> (\<forall>x\<in>set evs. offered_end ?new + b * 60 * 1000 \<le> fst x)"
  proof
    assume push: ?push
    have u: "usable ?new" using push by (simp add: usable_def)
    have l: "lo \<le> slot_start ?new" using Cons.prems(5) by simp
    have h: "offered_end ?new \<le> hi" using newend se bnn by linarith
    have c: "offered_end ?new \<le> ?cur1" using newend se bnn by linarith
    have f: "\<forall>x\<in>set evs. offered_end ?new + b * 60 * 1000 \<le> fst x"
    proof
      fix x assume "x \<in> set evs"
      then have "s \<le> fst x" using later by blast
      then show "offered_end ?new + b * 60 * 1000 \<le> fst x" using newend by linarith
    qed
    show "usable ?new \<and> lo \<le> slot_start ?new \<and> offered_end ?new \<le> hi
            \<and> offered_end ?new \<le> ?cur1 \<and> (\<forall>x\<in>set evs. offered_end ?new + b * 60 * 1000 \<le> fst x)"
      using u l h c f by simp
  qed
  have p6: "\<forall>sl\<in>set ?slots1. usable sl \<and> lo \<le> slot_start sl \<and> offered_end sl \<le> hi
            \<and> offered_end sl \<le> ?cur1 \<and> (\<forall>x\<in>set evs. offered_end sl + b * 60 * 1000 \<le> fst x)"
    using old new by (auto split: if_splits)
  have p7: "successively (\<lambda>s t. offered_end s \<le> slot_start t) ?slots1"
  proof (cases ?push)
    case False
    then show ?thesis using Cons.prems(7) by auto
  next
    case True
    have "slots \<noteq> [] \<longrightarrow> offered_end (last slots) \<le> slot_start ?new"
      using Cons.prems(6) by simp
    then show ?thesis
      using True Cons.prems(7) by (auto simp add: successively_append_iff)
  qed
  show ?case
    by (rule Cons.IH [OF Cons.prems(1) step p3 p4 p5 p6 p7])
qed

lemma floor_minutes_le:
  "Math_floor (x / (60 * 1000)) * ms_per_minute \<le> x"
proof -
  have "of_int \<lfloor>x / (60 * 1000)\<rfloor> \<le> x / (60 * 1000)" by (rule of_int_floor_le)
  then show ?thesis by (simp add: Math_floor_def ms_per_minute_def field_simps)
qed

lemma findDayAvailableSlots_day:
  assumes "0 \<le> b" and "provider_ok getEvents"
  shows "(\<forall>sl\<in>set (filter usable (fst (findDayAvailableSlots getEvents date st en b))).
            setHours date st \<le> slot_start sl \<and> offered_end sl \<le> setHours date en)
       \<and> successively (\<lambda>s t. offered_end s \<le> slot_start t)
            (filter usable (fst (findDayAvailableSlots getEvents date st en b)))"
proof (cases "getEvents (setHours date st) (setHours date en)")
  case None
  let ?w = "\<lparr> slot_start = setHours date st, slot_end = setHours date en,
              duration = Math_floor ((setHours date en - setHours date st) / (60 * 1000)) \<rparr>"
  have f: "fst (findDayAvailableSlots getEvents date st en b) = [?w]"
    using None by (simp add: findDayAvailableSlots_def Let_def)
  have "offered_end ?w \<le> setHours date en"
    using floor_minutes_le [of "setHours date en - setHours date st"]
    by (simp add: offered_end_def)
  then show ?thesis by (simp add: f)
next
  case (Some events)
  let ?lo = "setHours date st" and ?hi = "setHours date en"
  obtain cur slots where g: "find_gaps b (sortedEvents events) ?lo [] = (cur, slots)"
    by (cases "find_gaps b (sortedEvents events) ?lo []") auto
  have srt: "sorted (map fst (sortedEvents events))" by (simp add: sortedEvents_def)
  have ok: "list_all (\<lambda>ev. fst ev \<le> snd ev \<and> ?lo \<le> snd ev \<and> fst ev \<le> ?hi) (sortedEvents events)"
    using assms(2) Some by (simp add: provider_ok_def busy_intervals_ok_def)
  have inv: "?lo \<le> cur
       \<and> (\<forall>sl\<in>set slots. usable sl \<and> ?lo \<le> slot_start sl \<and> offered_end sl \<le> ?hi \<and> offered_end sl \<le> cur)
       \<and> successively (\<lambda>s t. offered_end s \<le> slot_start t) slots"
    by (rule find_gaps_inv [OF assms(1) g srt ok]) simp_all
  then have all_usable: "filter usable slots = slots" by (simp add: filter_id_conv)
  let ?d = "Math_floor ((?hi - cur) / (60 * 1000))"
  let ?last = "\<lparr> slot_start = cur, slot_end = ?hi, duration = ?d \<rparr>"
  show ?thesis
  proof (cases "cur < ?hi \<and> ?d \<ge> 30")
    case False
    then have f: "fst (findDayAvailableSlots getEvents date st en b) = slots"
      using Some g by (auto simp add: findDayAvailableSlots_def Let_def)
    show ?thesis using inv by (simp add: f all_usable)
  next
    case True
    then have f: "fst (findDayAvailableSlots getEvents date st en b) = slots @ [?last]"
      using Some g by (auto simp add: findDayAvailableSlots_def Let_def)
    have u: "usable ?last" using True by (simp add: usable_def)
    have e: "offered_end ?last \<le> ?hi"
      using floor_minutes_le [of "?hi - cur"] by (simp add: offered_end_def)
    have fl: "filter usable (slots @ [?last]) = slots @ [?last]"
      using all_usable u by simp
    have s: "successively (\<lambda>s t. offered_end s \<le> slot_start t) (slots @ [?last])"
    proof (cases "slots = []")
      case True
      then show ?thesis by simp
    next
      case False
      then have "last slots \<in> set slots" by simp
      then have "offered_end (last slots) \<le> cur" using inv by blast
      then show ?thesis using inv False by (simp add: successively_append_iff)
    qed
    show ?thesis using inv u e s by (simp only: f fl) auto
  qed
qed

lemma midnight_next: "midnight (d + ms_per_day) = midnight d + ms_per_day"
proof -
  have "(d + ms_per_day) / ms_per_day = d / ms_per_day + 1"
    by (simp add: ms_per_day_def field_simps)
  then have "\<lfloor>(d + ms_per_day) / ms_per_day\<rfloor> = \<lfloor>d / ms_per_day\<rfloor> + 1" by simp
  then show ?thesis by (simp add: midnight_def algebra_simps)
qed

lemma setHours_time_of_day: "setHours d hm = midnight d + time_of_day hm"
  by (simp add: setHours_def time_of_day_def)

lemma hours_within_day_enabled:
  assumes "hours_within_day wh" and "enabled (hours_of wh d)"
  shows "0 \<le> time_of_day (day_start (hours_of wh d)) \<and> time_of_day (day_end (hours_of wh d)) \<le> ms_per_day"
  using assms by (cases d) (auto simp add: hours_within_day_def)

lemma findAvailableTimeSlots_loop_inv:
  assumes "0 \<le> b" and "provider_ok getEvents" and "hours_within_day wh"
    and "successively (\<lambda>s t. offered_end s \<le> slot_start t) (filter usable (fst acc))"
    and "\<forall>sl\<in>set (filter usable (fst acc)). offered_end sl \<le> midnight cur"
  shows "successively (\<lambda>s t. offered_end s \<le> slot_start t)
           (filter usable (fst (findAvailableTimeSlots_loop getEvents wh b endDate cur acc)))"
  using assms
proof (induction getEvents wh b endDate cur acc rule: findAvailableTimeSlots_loop.induct)
  case (1 getEvents workingHours bufferTime endDate currentDate acc)
  show ?case
  proof (cases "currentDate \<le> endDate")
    case False
    then show ?thesis using "1.prems"(4) by (simp add: findAvailableTimeSlots_loop.simps)
  next
    case True
    let ?cfg = "hours_of workingHours (getDayOfWeek currentDate)"
    let ?day = "findDayAvailableSlots getEvents currentDate (day_start ?cfg) (day_end ?cfg) bufferTime"
    let ?acc' = "if enabled ?cfg
                 then (let (daySlots, out) = ?day in (fst acc @ daySlots, snd acc @ out))
                 else acc"
    have acc': "fst ?acc' = (if enabled ?cfg then fst acc @ fst ?day else fst acc)"
      by (simp add: split_def Let_def)
    have unfold: "findAvailableTimeSlots_loop getEvents workingHours bufferTime endDate currentDate acc
        = findAvailableTimeSlots_loop getEvents workingHours bufferTime endDate
            (currentDate + ms_per_day) ?acc'"
      using True
      by (subst findAvailableTimeSlots_loop.simps) (simp only: if_True Let_def)
    have mid: "midnight currentDate \<le> midnight (currentDate + ms_per_day)"
      by (simp only: midnight_next) (simp add: ms_per_day_def)
    have a4: "successively (\<lambda>s t. offered_end s \<le> slot_start t) (filter usable (fst ?acc'))"
      and a5: "\<forall>sl\<in>set (filter usable (fst ?acc')). offered_end sl \<le> midnight (currentDate + ms_per_day)"
    proof -
      show "successively (\<lambda>s t. offered_end s \<le> slot_start t) (filter usable (fst ?acc'))"
      proof (cases "enabled ?cfg")
        case False
        then show ?thesis using "1.prems"(4) by (subst acc') simp
      next
        case en: True
        have tod: "0 \<le> time_of_day (day_start ?cfg)"
          using hours_within_day_enabled [OF "1.prems"(3) en] by simp
        have day: "(\<forall>sl\<in>set (filter usable (fst ?day)).
              setHours currentDate (day_start ?cfg) \<le> slot_start sl
              \<and> offered_end sl \<le> setHours currentDate (day_end ?cfg))
            \<and> successively (\<lambda>s t. offered_end s \<le> slot_start t) (filter usable (fst ?day))"
          by (rule findDayAvailableSlots_day [OF "1.prems"(1) "1.prems"(2)])
        have link: "filter usable (fst acc) \<noteq> [] \<longrightarrow> filter usable (fst ?day) \<noteq> [] \<longrightarrow>
            offered_end (last (filter usable (fst acc))) \<le> slot_start (hd (filter usable (fst ?day)))"
        proof (intro impI)
          assume n1: "filter usable (fst acc) \<noteq> []" and n2: "filter usable (fst ?day) \<noteq> []"
          have "offered_end (last (filter usable (fst acc))) \<le> midnight currentDate"
            using "1.prems"(5) n1 last_in_set by blast
          moreover have "setHours currentDate (day_start ?cfg) \<le> slot_start (hd (filter usable (fst ?day)))"
            using day n2 hd_in_set by blast
          moreover have "midnight currentDate \<le> setHours currentDate (day_start ?cfg)"
            using tod by (simp add: setHours_time_of_day)
          ultimately show "offered_end (last (filter usable (fst acc)))
              \<le> slot_start (hd (filter usable (fst ?day)))" by linarith
        qed
        have "successively (\<lambda>s t. offered_end s \<le> slot_start t)
            (filter usable (fst acc) @ filter usable (fst ?day))"
          using "1.prems"(4) day link by (auto simp add: successively_append_iff)
        then show ?thesis using en by (subst acc') simp
      qed
    next
      show "\<forall>sl\<in>set (filter usable (fst ?acc')). offered_end sl \<le> midnight (currentDate + ms_per_day)"
      proof
        fix sl assume sl: "sl \<in> set (filter usable (fst ?acc'))"
        show "offered_end sl \<le> midnight (currentDate + ms_per_day)"
        proof (cases "sl \<in> set (filter usable (fst acc))")
          case True
          then have "offered_end sl \<le> midnight currentDate" using "1.prems"(5) by blast
          then show ?thesis using mid by linarith
        next
          case False
          then have en: "enabled ?cfg" and inday: "sl \<in> set (filter usable (fst ?day))"
            using sl unfolding acc' by (auto split: if_splits)
          have tod: "time_of_day (day_end ?cfg) \<le> ms_per_day"
            using hours_within_day_enabled [OF "1.prems"(3) en] by simp
          have "offered_end sl \<le> setHours currentDate (day_end ?cfg)"
            using findDayAvailableSlots_day [OF "1.prems"(1) "1.prems"(2), of currentDate
                "day_start ?cfg" "day_end ?cfg"] inday by blast
          then show ?thesis using tod by (simp only: setHours_time_of_day midnight_next)
        qed
      qed
    qed
    have "successively (\<lambda>s t. offered_end s \<le> slot_start t)
           (filter usable (fst (findAvailableTimeSlots_loop getEvents workingHours bufferTime endDate
              (currentDate + ms_per_day) ?acc')))"
      by (rule "1.IH" [OF True refl refl "1.prems"(1) "1.prems"(2) "1.prems"(3) a4 a5])
    then show ?thesis by (simp only: unfold)
  qed
qed

lemma findAvailableTimeSlots_free_slots_ok:
  assumes "0 \<le> b" and "provider_ok getEvents" and "hours_within_day wh"
  shows "free_slots_ok (fst (findAvailableTimeSlots getEvents startDate endDate wh b))"
  unfolding free_slots_ok_def findAvailableTimeSlots_def
  by (rule findAvailableTimeSlots_loop_inv [OF assms]) simp_all

lemma sample_surroundings_ok:
  "hours_within_day getDefaultWorkingHours \<and> provider_ok free_provider \<and> provider_ok failing_provider"
  by (simp add: hours_within_day_def getDefaultWorkingHours_def time_of_day_def ms_per_minute_def
      ms_per_day_def provider_ok_def busy_intervals_ok_def sortedEvents_def free_provider_def
      failing_provider_def)

subsection \<open>The blocks of a task\<close>

text \<open>
  Claim C2, as the code has it. When \<open>scheduleTask\<close> succeeds, with a buffer that is not
  negative, working hours that lie within the day on every enabled day (the start not
  before 00:00, the end not after 24:00) and a provider that answers a query for a window
  with busy intervals that run forward and touch the window, or fails, the blocks it
  returns do not overlap pairwise, each ends before every later one starts, their starts
  are in chronological order, their phases are in the fixed phase order, and every block
  ends after it starts. Nothing is asked of the task or its estimation.
\<close>

theorem scheduleTask_blocks:
  assumes "scheduleTask getEvents now task est workingHours bufferTime = Inr blocks"
    and "0 \<le> bufferTime" and "hours_within_day workingHours" and "provider_ok getEvents"
  shows "sorted_wrt (\<lambda>x y. \<not> overlaps x y) blocks
       \<and> sorted_wrt (\<lambda>x y. endTime x \<le> startTime y) blocks
       \<and> sorted (map startTime blocks)
       \<and> sorted (map (\<lambda>x. phase_rank (ce_phase x)) blocks)
       \<and> list_all (\<lambda>x. startTime x < endTime x) blocks"
proof -
  obtain due where due: "dueDate task = Some due" using assms(1)
    by (cases "dueDate task") (auto simp add: scheduleTask_def)
  have al: "allocate_phases (task_id task) bufferTime (phases_of est)
      (fst (findAvailableTimeSlots getEvents now due workingHours bufferTime)) = Inr blocks"
    using assms(1) due by (simp add: scheduleTask_def)
  show ?thesis
    by (rule allocate_phases_blocks [OF al assms(2)
          findAvailableTimeSlots_free_slots_ok [OF assms(2) assms(4) assms(3)]])
qed

theorem scheduleTask_blocks_witness:
  "scheduleTask free_provider 0 deadline_task (estimateTaskTime deadline_task) getDefaultWorkingHours 15
     = Inr example_blocks
   \<and> hours_within_day getDefaultWorkingHours
   \<and> provider_ok free_provider
   \<and> sorted_wrt (\<lambda>x y. \<not> overlaps x y) example_blocks
   \<and> sorted_wrt (\<lambda>x y. endTime x \<le> startTime y) example_blocks
   \<and> sorted (map startTime example_blocks)
   \<and> sorted (map (\<lambda>x. phase_rank (ce_phase x)) example_blocks)
   \<and> list_all (\<lambda>x. startTime x < endTime x) example_blocks"
proof -
  have h2: "(0::rat) \<le> 15" by simp
  have h3: "hours_within_day getDefaultWorkingHours" using sample_surroundings_ok by simp
  have h4: "provider_ok free_provider" using sample_surroundings_ok by simp
  show ?thesis
    using scheduleTask_blocks [OF scheduleTask_example h2 h3 h4] scheduleTask_example h3 h4 by simp
qed

lemma late_thursday_slots:
  "fst (findAvailableTimeSlots free_provider 0 86400000 late_thursday_hours 15)
     = [\<lparr> slot_start = 32400000, slot_end = 122400000, duration = 1500 \<rparr>,
        \<lparr> slot_start = 118800000, slot_end = 151200000, duration = 540 \<rparr>]"
  by (simp add: eval_defs late_thursday_hours_def)

text \<open>
  Claim C2 as stated, for every working-hours configuration, fails in two ways. With a
  buffer of -20 minutes on a free calendar, the cursor moves back after every block: the
  second block of the sample task starts at 08:58, two minutes before the first, and
  ends at 09:25, after the first has ended at 09:18. With working hours on Thursday from
  09:00 to 34:00 (which \<open>setHours\<close> takes to 10:00 on Friday) the slot of the Thursday
  runs into the slot of the Friday, and a first phase of 1500 minutes fills the one while
  the second phase starts with the other, at 09:00 on Friday.
\<close>

theorem scheduleTask_overlap_counterexample:
  "scheduleTask free_provider 0 deadline_task (estimateTaskTime deadline_task) getDefaultWorkingHours (- 20)
     = Inr [block Incubation 32400000 33480000, block Design 32280000 33900000,
            block Implementation 32700000 34860000, block Improvement 33660000 34200000]
   \<and> overlaps (block Incubation 32400000 33480000) (block Design 32280000 33900000)
   \<and> \<not> sorted (map startTime [block Incubation 32400000 33480000, block Design 32280000 33900000,
            block Implementation 32700000 34860000, block Improvement 33660000 34200000])
   \<and> \<not> hours_within_day late_thursday_hours
   \<and> scheduleTask free_provider 0 long_task (estimateTaskTime long_task) late_thursday_hours 15
     = Inr [block Incubation 32400000 122400000, block Design 118800000 122400000]
   \<and> overlaps (block Incubation 32400000 122400000) (block Design 118800000 122400000)"
proof -
  have a: "scheduleTask free_provider 0 deadline_task (estimateTaskTime deadline_task)
      getDefaultWorkingHours (- 20)
     = Inr [block Incubation 32400000 33480000, block Design 32280000 33900000,
            block Implementation 32700000 34860000, block Improvement 33660000 34200000]"
    by (simp add: scheduleTask_def deadline_task_def example_task_def eval_defs
      allocate_phases_def phases_of_def estimateTaskTime_def block_def place_in_slot.simps)
  have b: "scheduleTask free_provider 0 long_task (estimateTaskTime long_task) late_thursday_hours 15
     = Inr [block Incubation 32400000 122400000, block Design 118800000 122400000]"
    by (simp add: scheduleTask_def long_task_def example_task_def late_thursday_slots
      allocate_phases_def phases_of_def estimateTaskTime_def block_def place_in_slot.simps)
  have c: "\<not> hours_within_day late_thursday_hours"
    by (simp add: hours_within_day_def late_thursday_hours_def getDefaultWorkingHours_def
        time_of_day_def ms_per_minute_def ms_per_day_def)
  show ?thesis using a b c by (simp add: overlaps_def block_def)
qed

section \<open>Properties of the rescheduler\<close>

subsection \<open>The schedule window of a task\<close>

lemma sorted_map_hd_Min:
  fixes f :: "'a \<Rightarrow> 'b::linorder"
  assumes "sorted (map f ys)" and "ys \<noteq> []"
  shows "f (hd ys) = Min (set (map f ys))"
proof -
  obtain y rest where ys: "ys = y # rest" using assms(2) by (cases ys) auto
  have "\<forall>z\<in>set rest. f y \<le> f z" using assms(1) ys by auto
  then have "Min (set (map f ys)) = f y"
    unfolding ys by (intro Min_eqI) auto
  then show ?thesis using ys by simp
qed

lemma sorted_map_last_ge:
  fixes f :: "'a \<Rightarrow> 'b::linorder"
  assumes "sorted (map f ys)" and "y \<in> set ys"
  shows "f y \<le> f (last ys)"
  using assms
proof (induction ys)
  case Nil
  then show ?case by simp
next
  case (Cons a ys)
  then show ?case by (cases "ys = []") auto
qed

text \<open>
  For a task with blocks, the window that \<open>getTaskSchedule\<close> returns starts at the
  earliest block start and ends at the end of the block that comes last when the blocks
  are sorted by start (the sort is stable). That end is the latest block end when the
  ends of the blocks are in the order of their starts: a block that starts no later than
  another ends no later than it. For a task with no block, or no list of blocks, the
  window is null.
\<close>

lemma getTaskSchedule_window:
  "(calendarEvents task = Some evs \<and> evs \<noteq> [] \<longrightarrow>
      fst (getTaskSchedule task)
        = Some \<lparr> w_start = Min (set (map startTime evs)),
                 w_end = endTime (last (sort_key startTime evs)) \<rparr>
      \<and> ((\<forall>a\<in>set evs. \<forall>b\<in>set evs. startTime a \<le> startTime b \<longrightarrow> endTime a \<le> endTime b)
           \<longrightarrow> w_end (the (fst (getTaskSchedule task))) = Max (set (map endTime evs))))
   \<and> (calendarEvents task = None \<or> calendarEvents task = Some [] \<longrightarrow> fst (getTaskSchedule task) = None)"
proof (intro conjI impI)
  assume "calendarEvents task = None \<or> calendarEvents task = Some []"
  then show "fst (getTaskSchedule task) = None"
    by (auto simp add: getTaskSchedule_def)
next
  assume a: "calendarEvents task = Some evs \<and> evs \<noteq> []"
  let ?s = "sort_key startTime evs"
  have ne: "?s \<noteq> []" using a by (metis length_sort list.size(3) length_0_conv)
  have srt: "sorted (map startTime ?s)" by simp
  have st: "set ?s = set evs" by simp
  have hd: "startTime (hd ?s) = Min (set (map startTime evs))"
    using sorted_map_hd_Min [OF srt ne] st by simp
  obtain e es where evs: "evs = e # es" using a by (cases evs) auto
  show w: "fst (getTaskSchedule task)
        = Some \<lparr> w_start = Min (set (map startTime evs)),
                 w_end = endTime (last (sort_key startTime evs)) \<rparr>"
    using a hd by (simp add: getTaskSchedule_def evs Let_def)
  assume H: "\<forall>a\<in>set evs. \<forall>b\<in>set evs. startTime a \<le> startTime b \<longrightarrow> endTime a \<le> endTime b"
  have lastin: "last ?s \<in> set evs" using ne st last_in_set by blast
  have "\<forall>y\<in>set evs. endTime y \<le> endTime (last ?s)"
  proof
    fix y assume y: "y \<in> set evs"
    then have "startTime y \<le> startTime (last ?s)"
      using sorted_map_last_ge [OF srt, of y] st by simp
    then show "endTime y \<le> endTime (last ?s)" using H y lastin by blast
  qed
  then have "Max (set (map endTime evs)) = endTime (last ?s)"
    using lastin by (intro Max_eqI) auto
  then show "w_end (the (fst (getTaskSchedule task))) = Max (set (map endTime evs))"
    using w by simp
qed

lemma getTaskSchedule_window_example:
  "calendarEvents ordered_task = Some [block Design 600000 1200000, block Incubation 0 300000]
   \<and> fst (getTaskSchedule ordered_task) = Some \<lparr> w_start = 0, w_end = 1200000 \<rparr>
   \<and> w_end (the (fst (getTaskSchedule ordered_task))) = 1200000
   \<and> calendarEvents example_task = None
   \<and> fst (getTaskSchedule example_task) = None"
  using getTaskSchedule_window [of ordered_task "[block Design 600000 1200000, block Incubation 0 300000]"]
    getTaskSchedule_window [of example_task "[]"]
  by (simp add: ordered_task_def example_task_def block_def)

text \<open>
  Claim C9. The window is to end at the latest block end, also for blocks that overlap.
  \<open>getTaskSchedule\<close> reads the end of the block that starts last. Of a block from 0 to
  6000000 and a block from 600000 to 1200000 inside it, the window ends at 1200000, and
  the latest block end is 6000000. Of two blocks that both start at 0, one ending at
  100000 and then one ending at 50000, the window ends at 50000.
\<close>

theorem getTaskSchedule_nested_block:
  "calendarEvents overlapping_task = Some [block Design 600000 1200000, block Incubation 0 6000000]
   \<and> fst (getTaskSchedule overlapping_task) = Some \<lparr> w_start = 0, w_end = 1200000 \<rparr>
   \<and> Max (set (map endTime (the (calendarEvents overlapping_task)))) = 6000000
   \<and> calendarEvents tied_task = Some [block Incubation 0 100000, block Design 0 50000]
   \<and> fst (getTaskSchedule tied_task) = Some \<lparr> w_start = 0, w_end = 50000 \<rparr>
   \<and> Max (set (map endTime (the (calendarEvents tied_task)))) = 100000"
  by (simp add: getTaskSchedule_def overlapping_task_def tied_task_def block_def example_task_def)

subsection \<open>Change entries\<close>

lemma relaxed_ladder:
  "scheduleTaskWithRelaxedConstraints getEvents now task est wh bufferTime
    = (case first_success (ladder getEvents now task est wh bufferTime) of
         Some events \<Rightarrow> Inr events
       | None \<Rightarrow> Inl RelaxationFailed)"
  by (simp add: scheduleTaskWithRelaxedConstraints_def ladder_def shrink_estimation_def shrink_def
      fmul_def Let_def split: option.split sum.split)

lemma scheduleTask_calendarEvents [simp]:
  "scheduleTask getEvents now (task\<lparr> calendarEvents := x \<rparr>) est wh bufferTime
     = scheduleTask getEvents now task est wh bufferTime"
  by (cases "dueDate task") (simp_all add: scheduleTask_def)

lemma ladder_calendarEvents [simp]:
  "ladder getEvents now (task\<lparr> calendarEvents := x \<rparr>) est wh bufferTime
     = ladder getEvents now task est wh bufferTime"
proof -
  have sw: "\<And>d. scheduleTask getEvents now (task\<lparr> calendarEvents := x, dueDate := d \<rparr>) est wh bufferTime
        = scheduleTask getEvents now (task\<lparr> dueDate := d \<rparr>) est wh bufferTime"
    by (simp add: scheduleTask_def split: option.split)
  show ?thesis
    by (cases "dueDate task") (simp_all add: ladder_def sw)
qed

lemma relaxed_calendarEvents [simp]:
  "scheduleTaskWithRelaxedConstraints getEvents now (task\<lparr> calendarEvents := x \<rparr>) est wh bufferTime
     = scheduleTaskWithRelaxedConstraints getEvents now task est wh bufferTime"
  by (simp add: relaxed_ladder)

lemma estimateTaskTime_calendarEvents [simp]:
  "estimateTaskTime (task\<lparr> calendarEvents := x \<rparr>) = estimateTaskTime task"
  by (simp add: estimateTaskTime_def)

lemma try_schedule_nonempty:
  "calendarEvents task = Some (e # es) \<Longrightarrow>
   try_schedule getEvents now wh bufferTime (task\<lparr> calendarEvents := Some (y # ys) \<rparr>) est
     = try_schedule getEvents now wh bufferTime task est"
  by (simp add: try_schedule_def split: sum.split)

lemma getTaskSchedule_blocks:
  assumes "calendarEvents task = Some (e # es)"
  shows "\<exists>y ys. sort_key startTime (e # es) = y # ys
           \<and> getTaskSchedule task
               = (Some \<lparr> w_start = startTime y, w_end = endTime (last (y # ys)) \<rparr>,
                  task\<lparr> calendarEvents := Some (y # ys) \<rparr>)"
proof -
  have "sort_key startTime (e # es) \<noteq> []"
    by (metis length_sort list.size(3) length_0_conv list.distinct(1))
  then obtain y ys where ys: "sort_key startTime (e # es) = y # ys"
    by (cases "sort_key startTime (e # es)") auto
  have "getTaskSchedule task
               = (Some \<lparr> w_start = startTime y, w_end = endTime (last (y # ys)) \<rparr>,
                  task\<lparr> calendarEvents := Some (y # ys) \<rparr>)"
    using assms ys by (simp add: getTaskSchedule_def Let_def del: sort_key_simps)
  then show ?thesis using ys by blast
qed

lemma getTaskSchedule_no_blocks:
  assumes "calendarEvents task = None \<or> calendarEvents task = Some []"
  shows "getTaskSchedule task = (None, task)"
  using assms by (auto simp add: getTaskSchedule_def)

lemma try_schedule_getTaskSchedule:
  "try_schedule getEvents now wh bufferTime (snd (getTaskSchedule task)) est
     = try_schedule getEvents now wh bufferTime task est"
proof (cases "calendarEvents task")
  case None
  then show ?thesis by (simp add: getTaskSchedule_no_blocks)
next
  case (Some evs)
  show ?thesis
  proof (cases evs)
    case Nil
    with Some show ?thesis by (simp add: getTaskSchedule_no_blocks)
  next
    case (Cons e es)
    with Some have c: "calendarEvents task = Some (e # es)" by simp
    from getTaskSchedule_blocks [OF c] obtain y ys where
      "getTaskSchedule task
               = (Some \<lparr> w_start = startTime y, w_end = endTime (last (y # ys)) \<rparr>,
                  task\<lparr> calendarEvents := Some (y # ys) \<rparr>)" by blast
    then show ?thesis using try_schedule_nonempty [OF c] by simp
  qed
qed

lemma getTaskSchedule_frame:
  "estimateTaskTime (snd (getTaskSchedule task)) = estimateTaskTime task
   \<and> task_id (snd (getTaskSchedule task)) = task_id task"
proof (cases "calendarEvents task")
  case None
  then show ?thesis by (simp add: getTaskSchedule_no_blocks)
next
  case (Some evs)
  show ?thesis
  proof (cases evs)
    case Nil
    with Some show ?thesis by (simp add: getTaskSchedule_no_blocks)
  next
    case (Cons e es)
    with Some have c: "calendarEvents task = Some (e # es)" by simp
    from getTaskSchedule_blocks [OF c] obtain y ys where
      "getTaskSchedule task
               = (Some \<lparr> w_start = startTime y, w_end = endTime (last (y # ys)) \<rparr>,
                  task\<lparr> calendarEvents := Some (y # ys) \<rparr>)" by blast
    then show ?thesis by simp
  qed
qed




lemmas sample_defs = deadline_task_def example_task_def example_blocks_def block_def
  scheduled_task_def placed_task_def friday_blocks_def

lemma scheduleTask_example':
  "scheduleTask free_provider 0 deadline_task
     \<lparr> incubation = 18, design = 27, implementation = 36, improvement = 9, total = 90, confidence = 7 / 10 \<rparr>
     getDefaultWorkingHours 15 = Inr example_blocks"
  using scheduleTask_example by (simp add: estimateTaskTime_def sample_defs Math_floor_def)





subsection \<open>Relaxation\<close>

lemma reschedule_loop_tasks:
  "fst (reschedule_loop getEvents now wh bufferTime eventId tasks)
     = map (\<lambda>task. fst (reschedule_task getEvents now wh bufferTime eventId task)) tasks"
  by (induction tasks) (simp_all add: split_def Let_def)

lemma try_schedule_ladder:
  assumes "scheduleTask getEvents now task est wh bufferTime = Inl err"
  shows "(calendarEvents task = None \<or> calendarEvents task = Some [] \<longrightarrow>
            try_schedule getEvents now wh bufferTime task est
              = first_success (ladder getEvents now task est wh bufferTime))
         \<and> (\<forall>e es. calendarEvents task = Some (e # es) \<longrightarrow>
              try_schedule getEvents now wh bufferTime task est = None)"
  using assms
  by (auto simp add: try_schedule_def relaxed_ladder split: option.split list.split)

lemma reschedule_task_skipped:
  assumes "try_schedule getEvents now wh bufferTime task (estimateTaskTime task) = None"
  shows "reschedule_task getEvents now wh bufferTime eventId task = (snd (getTaskSchedule task), [])"
proof -
  obtain old t where g: "getTaskSchedule task = (old, t)" by (cases "getTaskSchedule task") auto
  have t1: "try_schedule getEvents now wh bufferTime t (estimateTaskTime t) = None"
    using try_schedule_getTaskSchedule [of getEvents now wh bufferTime task]
      getTaskSchedule_frame [of task] g assms by simp
  show ?thesis by (simp add: reschedule_task_def g t1)
qed

lemma reschedule_task_no_blocks:
  assumes "calendarEvents task = None \<or> calendarEvents task = Some []"
  shows "reschedule_task getEvents now wh bufferTime eventId task
           = (case try_schedule getEvents now wh bufferTime task (estimateTaskTime task) of
                Some (b # bs) \<Rightarrow> (with_schedule task (b # bs) now eventId, [])
              | _ \<Rightarrow> (task, []))"
  using getTaskSchedule_no_blocks [OF assms]
  by (simp add: reschedule_task_def with_schedule_def split: option.split list.split)

text \<open>
  Claim C3, as the code has it. When the strict allocation of a task fails: if the task
  has no block, the rescheduler tries the ladder in order (the deadline extended by 7
  days when there is a deadline; then the original deadline with the buffer halved but
  not below 5 minutes; then every phase cut by 30 percent as the machine computes it,
  with the original buffer) and takes the first attempt that succeeds: the task gets the
  blocks of that attempt, with no change entry, and when all attempts fail, or the one
  that succeeds has no block to give, the task is left as it was; if the task has blocks,
  no relaxation is tried and the task keeps its blocks (sorted by start) with no change
  entry. In both cases the pass goes on: it returns every task of the batch, each as its
  own turn of the loop leaves it, and its event lists them all.
\<close>

theorem reschedule_task_relaxation:
  assumes "scheduleTask getEvents now task (estimateTaskTime task) wh bufferTime = Inl err"
  shows "(calendarEvents task = None \<or> calendarEvents task = Some [] \<longrightarrow>
            try_schedule getEvents now wh bufferTime task (estimateTaskTime task)
              = first_success (ladder getEvents now task (estimateTaskTime task) wh bufferTime)
            \<and> reschedule_task getEvents now wh bufferTime eventId task
                = (case first_success (ladder getEvents now task (estimateTaskTime task) wh bufferTime) of
                     Some (b # bs) \<Rightarrow> (with_schedule task (b # bs) now eventId, [])
                   | _ \<Rightarrow> (task, [])))
         \<and> (\<forall>e es. calendarEvents task = Some (e # es) \<longrightarrow>
              try_schedule getEvents now wh bufferTime task (estimateTaskTime task) = None
              \<and> reschedule_task getEvents now wh bufferTime eventId task
                  = (task\<lparr> calendarEvents := Some (sort_key startTime (e # es)) \<rparr>, []))
         \<and> fst (rescheduleAffectedTasks getEvents now eventId (before @ task # after) trig (Some wh)
                  bufferTime sch)
             = map (\<lambda>t. fst (reschedule_task getEvents now wh bufferTime eventId t)) before
               @ fst (reschedule_task getEvents now wh bufferTime eventId task)
               # map (\<lambda>t. fst (reschedule_task getEvents now wh bufferTime eventId t)) after
         \<and> affectedTasks (fst (snd (rescheduleAffectedTasks getEvents now eventId (before @ task # after)
                                      trig (Some wh) bufferTime sch)))
             = map task_id (before @ task # after)"
proof (intro conjI impI allI)
  assume nb: "calendarEvents task = None \<or> calendarEvents task = Some []"
  show l: "try_schedule getEvents now wh bufferTime task (estimateTaskTime task)
              = first_success (ladder getEvents now task (estimateTaskTime task) wh bufferTime)"
    using try_schedule_ladder [OF assms] nb by blast
  show "reschedule_task getEvents now wh bufferTime eventId task
                = (case first_success (ladder getEvents now task (estimateTaskTime task) wh bufferTime) of
                     Some (b # bs) \<Rightarrow> (with_schedule task (b # bs) now eventId, [])
                   | _ \<Rightarrow> (task, []))"
    using reschedule_task_no_blocks [OF nb] l by simp
next
  fix e es assume c: "calendarEvents task = Some (e # es)"
  show n: "try_schedule getEvents now wh bufferTime task (estimateTaskTime task) = None"
    using try_schedule_ladder [OF assms] c by blast
  from getTaskSchedule_blocks [OF c] obtain y ys where
    "sort_key startTime (e # es) = y # ys"
    "getTaskSchedule task
       = (Some \<lparr> w_start = startTime y, w_end = endTime (last (y # ys)) \<rparr>,
          task\<lparr> calendarEvents := Some (y # ys) \<rparr>)" by blast
  then show "reschedule_task getEvents now wh bufferTime eventId task
                  = (task\<lparr> calendarEvents := Some (sort_key startTime (e # es)) \<rparr>, [])"
    using reschedule_task_skipped [OF n] by (simp del: sort_key_simps)
next
  show "fst (rescheduleAffectedTasks getEvents now eventId (before @ task # after) trig (Some wh)
                  bufferTime sch)
             = map (\<lambda>t. fst (reschedule_task getEvents now wh bufferTime eventId t)) before
               @ fst (reschedule_task getEvents now wh bufferTime eventId task)
               # map (\<lambda>t. fst (reschedule_task getEvents now wh bufferTime eventId t)) after"
    by (simp add: rescheduleAffectedTasks_def finalWorkingHours_def reschedule_loop_tasks
        split_def Let_def)
next
  show "affectedTasks (fst (snd (rescheduleAffectedTasks getEvents now eventId (before @ task # after)
                                      trig (Some wh) bufferTime sch)))
             = map task_id (before @ task # after)"
    by (simp add: rescheduleAffectedTasks_def split_def Let_def)
qed

text \<open>The cut of the durations of the samples, by evaluation.\<close>

lemma shrink_values:
  "shrink 18 = 12 \<and> shrink 27 = 18 \<and> shrink 36 = 25 \<and> shrink 9 = 6 \<and> shrink 90 = 62
   \<and> shrink 0 = 0"
  by code_simp

lemma phases_example:
  "phases_of (estimateTaskTime deadline_task)
     = [(Incubation, 18), (Design, 27), (Implementation, 36), (Improvement, 9)]"
  by (simp add: phases_of_def estimateTaskTime_def sample_defs Math_floor_def)

lemma estimate_example:
  "estimateTaskTime scheduled_task = estimateTaskTime deadline_task"
  by (simp add: estimateTaskTime_def sample_defs)

lemma deadline_task_fields:
  "dueDate deadline_task = Some 10800000 \<and> task_id deadline_task = ''task-1''
   \<and> calendarEvents deadline_task = None"
  by (simp add: sample_defs)

lemma slots_busy_first_day:
  "fst (findAvailableTimeSlots busy_first_day 0 10800000 getDefaultWorkingHours 15) = []
   \<and> fst (findAvailableTimeSlots busy_first_day 0 (10800000 + 7 * ms_per_day) getDefaultWorkingHours 15)
      = [\<lparr> slot_start = 118800000, slot_end = 151200000, duration = 540 \<rparr>,
         \<lparr> slot_start = 378000000, slot_end = 410400000, duration = 540 \<rparr>,
         \<lparr> slot_start = 464400000, slot_end = 496800000, duration = 540 \<rparr>,
         \<lparr> slot_start = 550800000, slot_end = 583200000, duration = 540 \<rparr>,
         \<lparr> slot_start = 637200000, slot_end = 669600000, duration = 540 \<rparr>]"
  by (simp add: eval_defs)

lemma strict_busy_first_day:
  "scheduleTask busy_first_day 0 deadline_task (estimateTaskTime deadline_task) getDefaultWorkingHours 15
     = Inl (CapacityExceeded 90 0)"
  by (simp add: scheduleTask_def allocate_phases_def phases_example deadline_task_fields
      slots_busy_first_day)

lemma extended_busy_first_day:
  "scheduleTask busy_first_day 0 (deadline_task\<lparr> dueDate := Some (10800000 + 7 * ms_per_day) \<rparr>)
     (estimateTaskTime deadline_task) getDefaultWorkingHours 15 = Inr friday_blocks"
  by (simp add: scheduleTask_def allocate_phases_def phases_example deadline_task_fields
      slots_busy_first_day place_in_slot.simps friday_blocks_def block_def)

lemma ladder_busy_first_day:
  "first_success (ladder busy_first_day 0 deadline_task (estimateTaskTime deadline_task)
                    getDefaultWorkingHours 15) = Some friday_blocks"
proof -
  have "dueDate deadline_task = Some 10800000" by (simp add: sample_defs)
  then show ?thesis using extended_busy_first_day by (simp add: ladder_def)
qed

lemma findAvailableTimeSlots_busy:
  "fst (findAvailableTimeSlots busy_provider 0 10800000 getDefaultWorkingHours 15) = []
   \<and> fst (findAvailableTimeSlots busy_provider 0 10800000 getDefaultWorkingHours (15 / 2)) = []
   \<and> fst (findAvailableTimeSlots busy_provider 0 (10800000 + 7 * ms_per_day) getDefaultWorkingHours 15) = []"
  by (simp add: eval_defs busy_provider_def)

lemma ladder_busy:
  "scheduleTask busy_provider 0 deadline_task (estimateTaskTime deadline_task) getDefaultWorkingHours 15
     = Inl (CapacityExceeded 90 0)
   \<and> first_success (ladder busy_provider 0 deadline_task (estimateTaskTime deadline_task)
                    getDefaultWorkingHours 15) = None"
proof -
  have d: "dueDate deadline_task = Some 10800000" by (simp add: sample_defs)
  have p: "phases_of (shrink_estimation (estimateTaskTime deadline_task))
      = [(Incubation, 12), (Design, 18), (Implementation, 25), (Improvement, 6)]"
    by (simp add: phases_of_def shrink_estimation_def estimateTaskTime_def sample_defs Math_floor_def
        shrink_values)
  show ?thesis
    using findAvailableTimeSlots_busy
    by (simp add: ladder_def scheduleTask_def d allocate_phases_def phases_example p)
qed

lemmas gap_defs = findAvailableTimeSlots_def findAvailableTimeSlots_loop.simps gap_provider_def
  getDefaultWorkingHours_def getDayOfWeek_def getDay_def findDayAvailableSlots_def setHours_def
  midnight_def ms_per_day_def ms_per_minute_def Math_floor_def sortedEvents_def Let_def

lemma slots_gap_provider:
  "fst (findAvailableTimeSlots gap_provider 0 10800000 getDefaultWorkingHours 15)
     = [\<lparr> slot_start = 36900000, slot_end = 40620000, duration = 62 \<rparr>]
   \<and> fst (findAvailableTimeSlots gap_provider 0 (10800000 + 7 * ms_per_day) getDefaultWorkingHours 15)
     = [\<lparr> slot_start = 36900000, slot_end = 40620000, duration = 62 \<rparr>]
   \<and> fst (findAvailableTimeSlots gap_provider 0 10800000 getDefaultWorkingHours (15 / 2))
     = [\<lparr> slot_start = 36450000, slot_end = 41070000, duration = 77 \<rparr>]"
  by (simp add: gap_defs)

lemma single_phase_task_fields:
  "dueDate single_phase_task = Some 10800000 \<and> task_id single_phase_task = ''task-1''
   \<and> calendarEvents single_phase_task = None
   \<and> phases_of (estimateTaskTime single_phase_task) = [(Incubation, 90)]
   \<and> phases_of (shrink_estimation (estimateTaskTime single_phase_task)) = [(Incubation, 62)]"
  by (simp add: single_phase_task_def sample_defs estimateTaskTime_def phases_of_def
      shrink_estimation_def shrink_values)

lemma ladder_gap_provider:
  "scheduleTask gap_provider 0 single_phase_task (estimateTaskTime single_phase_task)
     getDefaultWorkingHours 15 = Inl (CapacityExceeded 28 62)
   \<and> ladder gap_provider 0 single_phase_task (estimateTaskTime single_phase_task)
       getDefaultWorkingHours 15
     = [Inl (CapacityExceeded 28 62), Inl (CapacityExceeded 13 77),
        Inr [block Incubation 36900000 40620000]]"
  using slots_gap_provider single_phase_task_fields
  by (simp add: ladder_def scheduleTask_def allocate_phases_def place_in_slot.simps block_def)

theorem reschedule_task_relaxation_witness:
  "scheduleTask busy_first_day 0 deadline_task (estimateTaskTime deadline_task) getDefaultWorkingHours 15
     = Inl (CapacityExceeded 90 0)
   \<and> calendarEvents deadline_task = None
   \<and> reschedule_task busy_first_day 0 getDefaultWorkingHours 15 ''1'' deadline_task
       = (with_schedule deadline_task friday_blocks 0 ''1'', [])
   \<and> scheduleTask gap_provider 0 single_phase_task (estimateTaskTime single_phase_task)
        getDefaultWorkingHours 15 = Inl (CapacityExceeded 28 62)
   \<and> calendarEvents single_phase_task = None
   \<and> reschedule_task gap_provider 0 getDefaultWorkingHours 15 ''1'' single_phase_task
       = (with_schedule single_phase_task [block Incubation 36900000 40620000] 0 ''1'', [])
   \<and> scheduleTask busy_provider 0 deadline_task (estimateTaskTime deadline_task) getDefaultWorkingHours 15
       = Inl (CapacityExceeded 90 0)
   \<and> reschedule_task busy_provider 0 getDefaultWorkingHours 15 ''1'' deadline_task = (deadline_task, [])
   \<and> calendarEvents scheduled_task = Some [block Implementation 3600000 7200000]
   \<and> reschedule_task busy_first_day 0 getDefaultWorkingHours 15 ''1'' scheduled_task = (scheduled_task, [])
   \<and> fst (rescheduleAffectedTasks busy_first_day 0 ''1'' [scheduled_task, deadline_task]
             Manual_adjustment (Some getDefaultWorkingHours) 15 idle_scheduler)
       = [scheduled_task, with_schedule deadline_task friday_blocks 0 ''1'']"
proof -
  have s1: "scheduleTask busy_first_day 0 deadline_task (estimateTaskTime deadline_task)
      getDefaultWorkingHours 15 = Inl (CapacityExceeded 90 0)"
    by (rule strict_busy_first_day)
  have s2: "scheduleTask busy_provider 0 deadline_task (estimateTaskTime deadline_task)
      getDefaultWorkingHours 15 = Inl (CapacityExceeded 90 0)"
    using ladder_busy by simp
  have s3: "scheduleTask busy_first_day 0 scheduled_task (estimateTaskTime scheduled_task)
      getDefaultWorkingHours 15 = Inl (CapacityExceeded 90 0)"
    using strict_busy_first_day by (simp add: scheduled_task_def estimate_example [unfolded scheduled_task_def])
  have s4: "scheduleTask gap_provider 0 single_phase_task (estimateTaskTime single_phase_task)
      getDefaultWorkingHours 15 = Inl (CapacityExceeded 28 62)"
    using ladder_gap_provider by simp
  have c1: "calendarEvents deadline_task = None" by (simp add: sample_defs)
  have c3: "calendarEvents scheduled_task = Some [block Implementation 3600000 7200000]"
    by (simp add: sample_defs)
  have c4: "calendarEvents single_phase_task = None" by (simp add: single_phase_task_def sample_defs)
  show ?thesis
    using reschedule_task_relaxation [OF s1, where eventId = "''1''" and before = "[scheduled_task]"
        and after = "[]" and trig = Manual_adjustment and sch = idle_scheduler]
      reschedule_task_relaxation [OF s2, where eventId = "''1''" and before = "[]" and after = "[]"
        and trig = Manual_adjustment and sch = idle_scheduler]
      reschedule_task_relaxation [OF s3, where eventId = "''1''" and before = "[]" and after = "[]"
        and trig = Manual_adjustment and sch = idle_scheduler]
      reschedule_task_relaxation [OF s4, where eventId = "''1''" and before = "[]" and after = "[]"
        and trig = Manual_adjustment and sch = idle_scheduler]
      s1 s2 s4 c1 c3 c4 ladder_busy_first_day ladder_busy ladder_gap_provider
    by (simp add: scheduled_task_def friday_blocks_def)
qed

text \<open>
  Claim C3 as stated fails for a task that has a block: the strict allocation fails,
  the ladder would succeed at its first step (blocks on the Friday), and the rescheduler
  does not try it: the task keeps its block.
\<close>

theorem reschedule_task_no_ladder_counterexample:
  "calendarEvents scheduled_task = Some [block Implementation 3600000 7200000]
   \<and> scheduleTask busy_first_day 0 scheduled_task (estimateTaskTime scheduled_task) getDefaultWorkingHours 15
       = Inl (CapacityExceeded 90 0)
   \<and> scheduleTaskWithRelaxedConstraints busy_first_day 0 scheduled_task (estimateTaskTime scheduled_task)
        getDefaultWorkingHours 15 = Inr friday_blocks
   \<and> try_schedule busy_first_day 0 getDefaultWorkingHours 15 scheduled_task (estimateTaskTime scheduled_task)
       = None
   \<and> reschedule_task busy_first_day 0 getDefaultWorkingHours 15 ''1'' scheduled_task = (scheduled_task, [])"
proof -
  have s3: "scheduleTask busy_first_day 0 scheduled_task (estimateTaskTime scheduled_task)
      getDefaultWorkingHours 15 = Inl (CapacityExceeded 90 0)"
    using strict_busy_first_day by (simp add: scheduled_task_def estimate_example [unfolded scheduled_task_def])
  have c3: "calendarEvents scheduled_task = Some [block Implementation 3600000 7200000]"
    by (simp add: sample_defs)
  have r: "scheduleTaskWithRelaxedConstraints busy_first_day 0 scheduled_task (estimateTaskTime scheduled_task)
        getDefaultWorkingHours 15 = Inr friday_blocks"
    using ladder_busy_first_day
    by (simp add: relaxed_ladder scheduled_task_def estimate_example [unfolded scheduled_task_def])
  have t: "try_schedule busy_first_day 0 getDefaultWorkingHours 15 scheduled_task (estimateTaskTime scheduled_task)
       = None"
    using s3 c3 by (simp add: try_schedule_def)
  have "reschedule_task busy_first_day 0 getDefaultWorkingHours 15 ''1'' scheduled_task = (scheduled_task, [])"
    using reschedule_task_skipped [OF t] by (simp add: getTaskSchedule_def sample_defs)
  then show ?thesis using s3 c3 r t by simp
qed

subsection \<open>The in-progress flag\<close>

lemma finalWorkingHours_flag:
  "finalWorkingHours wh (sch\<lparr> reschedulingInProgress := f \<rparr>) = finalWorkingHours wh sch"
  by (cases wh) (simp_all add: finalWorkingHours_def)

lemma saveReschedulingEvent_flag:
  "saveReschedulingEvent ev (sch\<lparr> reschedulingInProgress := f \<rparr>)
     = (saveReschedulingEvent ev sch)\<lparr> reschedulingInProgress := f \<rparr>"
  by (simp add: saveReschedulingEvent_def Let_def split: stored.split)

lemma saveReschedulingEvent_keeps_flag:
  "reschedulingInProgress (saveReschedulingEvent ev sch) = reschedulingInProgress sch"
  by (simp add: saveReschedulingEvent_def Let_def split: stored.split)

text \<open>
  \<open>rescheduleAffectedTasks\<close> does the same whatever the flag, and leaves the flag as it
  found it.
\<close>

lemma rescheduleAffectedTasks_flag:
  "rescheduleAffectedTasks getEvents now newId tasks trig wh bufferTime (sch\<lparr> reschedulingInProgress := f \<rparr>)
   = (let (tasks', ev, sch') = rescheduleAffectedTasks getEvents now newId tasks trig wh bufferTime sch
      in (tasks', ev, sch'\<lparr> reschedulingInProgress := f \<rparr>))"
  by (simp add: rescheduleAffectedTasks_def finalWorkingHours_flag saveReschedulingEvent_flag
      Let_def split_def)

lemma rescheduleAffectedTasks_keeps_flag:
  "reschedulingInProgress (snd (snd (rescheduleAffectedTasks getEvents now newId tasks trig wh bufferTime sch)))
     = reschedulingInProgress sch"
  by (simp add: rescheduleAffectedTasks_def saveReschedulingEvent_keeps_flag Let_def split_def)

text \<open>
  While the flag is set, \<open>handleCalendarChange\<close> leaves the scheduler as it is: no event
  is persisted and no listener is called. A call that got past the test has set the flag,
  so any other call of \<open>handleCalendarChange\<close> made before it ends returns at once.
\<close>

lemma handleCalendarChange_guard:
  "(reschedulingInProgress sch \<longrightarrow> handleCalendarChange now newId eventId sch = sch)
   \<and> (handleCalendarChange_enter sch = Some sch1 \<longrightarrow>
        reschedulingInProgress sch1 \<and> handleCalendarChange now1 newId1 eventId1 sch1 = sch1)"
  by (auto simp add: handleCalendarChange_def handleCalendarChange_enter_def split: if_splits)

text \<open>
  The guard at work on the scheduler with one stored task. At rest, a calendar change
  for the event of the task's block runs a pass: its event, with no change entry, is
  persisted and delivered to the listener. While a pass is in progress the same call
  changes nothing.
\<close>

lemma handleCalendarChange_example:
  "handleCalendarChange 0 ''2'' ''google-event-1'' synced_scheduler
     = synced_scheduler\<lparr> delivered := [(''sync-1'', webhook_event ''2'')],
                          stored_events := Present [webhook_event ''2''] \<rparr>
   \<and> handleCalendarChange_enter synced_scheduler = Some in_progress_scheduler
   \<and> handleCalendarChange 0 ''3'' ''google-event-1'' in_progress_scheduler = in_progress_scheduler"
  by (simp add: handleCalendarChange_def handleCalendarChange_enter_def handleCalendarChange_finish_def
      getAffectedTasks_def rescheduleAffectedTasks_stored_def saveReschedulingEvent_def notifyListeners_def
      synced_scheduler_def in_progress_scheduler_def idle_scheduler_def stored_task_def
      webhook_event_def Let_def)

lemma reschedule_synced_task:
  "reschedule_task free_provider 0 getDefaultWorkingHours 15 ''1'' synced_task
     = (with_schedule synced_task example_blocks 0 ''1'', changes manual_event)"
proof -
  have "try_schedule free_provider 0 getDefaultWorkingHours 15 synced_task (estimateTaskTime synced_task)
      = Some example_blocks"
    using scheduleTask_example by (simp add: try_schedule_def synced_task_def)
  then show ?thesis
    by (simp add: reschedule_task_def getTaskSchedule_def with_schedule_def manual_event_def
        synced_task_def sample_defs Let_def)
qed

lemma manual_pass:
  "triggerReschedulingCheck free_provider 0 ''1'' [synced_task] getDefaultWorkingHours sch
     = Some ([with_schedule synced_task example_blocks 0 ''1''], manual_event,
             saveReschedulingEvent manual_event sch)"
proof -
  have f: "task_status synced_task \<noteq> Done
      \<and> calendarEvents synced_task
          = Some [(block Implementation 3600000 7200000)\<lparr> googleEventId := Some ''google-event-1'' \<rparr>]
      \<and> task_id synced_task = ''task-1''"
    by (simp add: synced_task_def sample_defs)
  show ?thesis
    using f reschedule_synced_task
    by (simp add: triggerReschedulingCheck_def rescheduleAffectedTasks_def finalWorkingHours_def
        manual_event_def Let_def)
qed

text \<open>
  Claim C8. One pass is to run at a time in the whole process, a trigger that arrives
  during a pass being a no-op. The flag is tested and set by \<open>handleCalendarChange\<close>
  only. \<open>rescheduleAffectedTasks\<close>, which the manual trigger calls directly, neither
  tests nor sets it. On the scheduler with one stored task:

  \<^item> the manual trigger runs its pass and the flag stays clear. The pass writes to the
    scheduler only at its end, so a calendar change that arrives while the pass waits for
    the provider finds the scheduler as it was and runs a second pass, whose event is
    persisted and delivered;

  \<^item> while the flag is set, a calendar change is a no-op, and the manual trigger still
    runs its pass: the task is moved and the event persisted.
\<close>

theorem rescheduleAffectedTasks_ignores_flag:
  "\<not> reschedulingInProgress synced_scheduler
   \<and> triggerReschedulingCheck free_provider 0 ''1'' [synced_task] getDefaultWorkingHours synced_scheduler
       = Some ([with_schedule synced_task example_blocks 0 ''1''], manual_event,
               synced_scheduler\<lparr> stored_events := Present [manual_event] \<rparr>)
   \<and> handleCalendarChange 0 ''2'' ''google-event-1'' synced_scheduler
       = synced_scheduler\<lparr> delivered := [(''sync-1'', webhook_event ''2'')],
                            stored_events := Present [webhook_event ''2''] \<rparr>
   \<and> reschedulingInProgress in_progress_scheduler
   \<and> handleCalendarChange 0 ''2'' ''google-event-1'' in_progress_scheduler = in_progress_scheduler
   \<and> triggerReschedulingCheck free_provider 0 ''1'' [synced_task] getDefaultWorkingHours
        in_progress_scheduler
       = Some ([with_schedule synced_task example_blocks 0 ''1''], manual_event,
               in_progress_scheduler\<lparr> stored_events := Present [manual_event] \<rparr>)"
  using handleCalendarChange_example
  by (simp add: manual_pass saveReschedulingEvent_def handleCalendarChange_def
      handleCalendarChange_enter_def synced_scheduler_def in_progress_scheduler_def
      idle_scheduler_def Let_def)

end
